theory Spec2Isabelle
  imports Main
begin

section \<open>Regular expressions of the controller (package regexp, the subset in use)\<close>

text \<open>
  \<^verbatim>\<open>app.go\<close> compiles two patterns, both anchored with \<^verbatim>\<open>^\<close> and \<^verbatim>\<open>$\<close>
  and compiled without flags, so \<^verbatim>\<open>MatchString\<close> holds exactly when the whole string is
  in the language of the pattern between the anchors. A pattern is a syntax tree; a
  character class is its list of inclusive ranges, and characters are bytes.
\<close>

datatype regexp =
    Zero
  | One
  | Class "(char \<times> char) list"
  | Times regexp regexp
  | Alt regexp regexp
  | Star regexp

definition in_range :: "char \<Rightarrow> char \<times> char \<Rightarrow> bool" where
  "in_range c r = ((of_char (fst r) :: nat) \<le> of_char c \<and> (of_char c :: nat) \<le> of_char (snd r))"

definition in_class :: "(char \<times> char) list \<Rightarrow> char \<Rightarrow> bool" where
  "in_class rs c = list_ex (in_range c) rs"

text \<open>The derived forms: a literal character, \<^verbatim>\<open>r+\<close>, \<^verbatim>\<open>r?\<close> and \<^verbatim>\<open>r{n}\<close>.\<close>

definition Lit :: "char \<Rightarrow> regexp" where
  "Lit c = Class [(c, c)]"

definition Plus :: "regexp \<Rightarrow> regexp" where
  "Plus r = Times r (Star r)"

definition Quest :: "regexp \<Rightarrow> regexp" where
  "Quest r = Alt r One"

fun Repeat :: "nat \<Rightarrow> regexp \<Rightarrow> regexp" where
  "Repeat 0 r = One"
| "Repeat (Suc n) r = Times r (Repeat n r)"

text \<open>Matching by derivatives: the matcher reads the string once, left to right.\<close>

fun nullable :: "regexp \<Rightarrow> bool" where
  "nullable Zero = False"
| "nullable One = True"
| "nullable (Class rs) = False"
| "nullable (Times r s) = (nullable r \<and> nullable s)"
| "nullable (Alt r s) = (nullable r \<or> nullable s)"
| "nullable (Star r) = True"

fun deriv :: "char \<Rightarrow> regexp \<Rightarrow> regexp" where
  "deriv c Zero = Zero"
| "deriv c One = Zero"
| "deriv c (Class rs) = (if in_class rs c then One else Zero)"
| "deriv c (Times r s) =
     (if nullable r then Alt (Times (deriv c r) s) (deriv c s) else Times (deriv c r) s)"
| "deriv c (Alt r s) = Alt (deriv c r) (deriv c s)"
| "deriv c (Star r) = Times (deriv c r) (Star r)"

fun derivs :: "regexp \<Rightarrow> string \<Rightarrow> regexp" where
  "derivs r [] = r"
| "derivs r (c # cs) = derivs (deriv c r) cs"

definition MatchString :: "regexp \<Rightarrow> string \<Rightarrow> bool" where
  "MatchString r s = nullable (derivs r s)"

text \<open>The language of a pattern, to state what the matcher decides.\<close>

definition conc :: "string set \<Rightarrow> string set \<Rightarrow> string set" where
  "conc A B = {xs @ ys | xs ys. xs \<in> A \<and> ys \<in> B}"

inductive_set star :: "string set \<Rightarrow> string set" for A :: "string set" where
  star_nil: "[] \<in> star A"
| star_app: "xs \<in> A \<Longrightarrow> ys \<in> star A \<Longrightarrow> xs @ ys \<in> star A"

fun lang :: "regexp \<Rightarrow> string set" where
  "lang Zero = {}"
| "lang One = {[]}"
| "lang (Class rs) = {[c] | c. in_class rs c}"
| "lang (Times r s) = conc (lang r) (lang s)"
| "lang (Alt r s) = lang r \<union> lang s"
| "lang (Star r) = star (lang r)"

text \<open>
  \<^verbatim>\<open>var appNamePattern = regexp.MustCompile(`^[a-z\d]+(-[a-z\d]+)*$`)\<close>, where
  \<^verbatim>\<open>\d\<close> is the ASCII digits.
\<close>

definition lower_alnum :: "(char \<times> char) list" where
  "lower_alnum = [(CHR ''a'', CHR ''z''), (CHR ''0'', CHR ''9'')]"

definition appNamePattern :: regexp where
  "appNamePattern =
     Times (Plus (Class lower_alnum))
           (Star (Times (Lit (CHR ''-'')) (Plus (Class lower_alnum))))"

text \<open>
  \<^verbatim>\<open>var idPattern = regexp.MustCompile(`^[a-f0-9]{8}-?([a-f0-9]{4}-?){3}[a-f0-9]{12}$`)\<close>
\<close>

definition lower_hex :: "(char \<times> char) list" where
  "lower_hex = [(CHR ''a'', CHR ''f''), (CHR ''0'', CHR ''9'')]"

definition idPattern :: regexp where
  "idPattern =
     Times (Repeat 8 (Class lower_hex))
    (Times (Quest (Lit (CHR ''-'')))
    (Times (Repeat 3 (Times (Repeat 4 (Class lower_hex)) (Quest (Lit (CHR ''-'')))))
           (Repeat 12 (Class lower_hex))))"

text \<open>
  The reading of the app name pattern in words: one or more non-empty runs of lowercase
  letters and digits, joined by single hyphens.
\<close>

definition is_lower_alnum :: "char \<Rightarrow> bool" where
  "is_lower_alnum c =
     ((97 \<le> (of_char c :: nat) \<and> (of_char c :: nat) \<le> 122) \<or>
      (48 \<le> (of_char c :: nat) \<and> (of_char c :: nat) \<le> 57))"

definition is_run :: "string \<Rightarrow> bool" where
  "is_run r = (r \<noteq> [] \<and> list_all is_lower_alnum r)"

fun join_hyphen :: "string list \<Rightarrow> string" where
  "join_hyphen [] = []"
| "join_hyphen [r] = r"
| "join_hyphen (r # rs) = r @ CHR ''-'' # join_hyphen rs"

definition is_slug :: "string \<Rightarrow> bool" where
  "is_slug s = (\<exists>runs. runs \<noteq> [] \<and> list_all is_run runs \<and> s = join_hyphen runs)"

definition hyphen_runs :: "string list \<Rightarrow> string" where
  "hyphen_runs rs = concat (map (\<lambda>r. CHR ''-'' # r) rs)"

section \<open>The relational store, as far as \<^verbatim>\<open>app.go\<close> reads and writes it\<close>

text \<open>
  Error values of package main. \<^verbatim>\<open>ErrNotFound\<close> and \<^verbatim>\<open>sql.ErrNoRows\<close> are
  compared by identity in the source, so each is a constructor of its own;
  \<^verbatim>\<open>errors.New\<close> and \<^verbatim>\<open>fmt.Errorf\<close> values carry their message.
\<close>

datatype error =
    ErrNotFound
  | sql_ErrNoRows
  | sql_ErrTxDone
  | ErrorsNew string
  | DriverError string

text \<open>
  One row of table \<^verbatim>\<open>apps\<close>, with the columns the statements of \<^verbatim>\<open>app.go\<close> name.
  Times are ticks of the store's clock.
\<close>

record app_row =
  app_id :: string
  name :: string
  protected :: bool
  created_at :: nat
  updated_at :: nat
  deleted_at :: "nat option"

text \<open>The statements the repository issues, by the SQL text in the source.\<close>

datatype statement =
    InsertApp string string bool
  | SelectAppByIDOrName string string bool
  | SelectAppByName string bool
  | UpdateProtected string bool
  | BeginTx
  | CommitTx
  | RollbackTx

text \<open>
  The store: the committed rows, the working copy of the open transaction (if any), the
  statements issued so far (kept across rollbacks: it is what the store was asked, not
  what it holds), and the clock behind the column defaults.
\<close>

record DB =
  apps :: "app_row list"
  pending :: "app_row list option"
  issued :: "statement list"
  clock :: nat

text \<open>
  Modelled from the spec: \<^verbatim>\<open>cleanUUID\<close> is called by \<^verbatim>\<open>app.go\<close> but defined in a
  file that is not among the sources. The spec: an ID "is a UUID, rendered without dashes
  in responses (clean form)".
\<close>

definition cleanUUID :: "string \<Rightarrow> string" where
  "cleanUUID u = filter (\<lambda>c. c \<noteq> CHR ''-'') u"

text \<open>
  Column \<^verbatim>\<open>app_id\<close> is compared as a UUID: the hyphens of its text form carry no
  information, so two texts are the same UUID when they agree without them.
\<close>

definition uuid_eq :: "string \<Rightarrow> string \<Rightarrow> bool" where
  "uuid_eq a b = (cleanUUID a = cleanUUID b)"

text \<open>\<^verbatim>\<open>rowQueryer\<close>: the connection itself (\<^verbatim>\<open>r.db\<close>) or an open transaction (\<^verbatim>\<open>tx\<close>).\<close>

datatype rowQueryer = OnDB | OnTx

definition rows_of :: "rowQueryer \<Rightarrow> DB \<Rightarrow> app_row list option" where
  "rows_of h db = (case h of OnDB \<Rightarrow> Some (apps db) | OnTx \<Rightarrow> pending db)"

text \<open>
  The two SELECTs of \<^verbatim>\<open>selectApp\<close>:
  \<^verbatim>\<open>... FROM apps WHERE deleted_at IS NULL AND (app_id = $1 OR name = $2) LIMIT 1\<close> and
  \<^verbatim>\<open>... FROM apps WHERE deleted_at IS NULL AND name = $1\<close>
  (\<^verbatim>\<open>FOR UPDATE\<close> locks rows and selects the same ones).
\<close>

fun select_rows :: "statement \<Rightarrow> app_row list \<Rightarrow> app_row list" where
  "select_rows (SelectAppByIDOrName a b u) rs =
     take 1 (filter (\<lambda>r. deleted_at r = None \<and> (uuid_eq (app_id r) a \<or> name r = b)) rs)"
| "select_rows (SelectAppByName a u) rs =
     filter (\<lambda>r. deleted_at r = None \<and> name r = a) rs"
| "select_rows q rs = []"

text \<open>
  \<^verbatim>\<open>Scanner\<close>: what \<^verbatim>\<open>QueryRow\<close> hands back. \<^verbatim>\<open>Scan\<close> reads the first row of the
  result, reports \<^verbatim>\<open>sql.ErrNoRows\<close> when there is none, or the error of the query.
  The argument \<open>fault\<close> of every store operation is the failure the store answers with,
  if any (a lost connection, a violated constraint), by its message: the source has a
  branch for it, and the driver's errors are values of their own (\<open>DriverError\<close>).
\<close>

datatype Scanner = Row app_row | NoRow | Failed error

definition QueryRow :: "rowQueryer \<Rightarrow> string option \<Rightarrow> DB \<Rightarrow> statement \<Rightarrow> Scanner \<times> DB" where
  "QueryRow h fault db q =
     (let db' = db\<lparr>issued := issued db @ [q]\<rparr> in
      case fault of
        Some m \<Rightarrow> (Failed (DriverError m), db')
      | None \<Rightarrow>
          (case rows_of h db of
             None \<Rightarrow> (Failed sql_ErrTxDone, db')
           | Some rs \<Rightarrow>
               (case select_rows q rs of
                  [] \<Rightarrow> (NoRow, db')
                | r # _ \<Rightarrow> (Row r, db'))))"

text \<open>
  \<^verbatim>\<open>INSERT INTO apps (app_id, name, protected) VALUES ($1, $2, $3) RETURNING created_at, updated_at\<close>,
  on the connection (so committed at once).
\<close>

definition insert_app ::
  "string option \<Rightarrow> DB \<Rightarrow> string \<Rightarrow> string \<Rightarrow> bool \<Rightarrow> (error + nat \<times> nat) \<times> DB" where
  "insert_app fault db i n p =
     (let db' = db\<lparr>issued := issued db @ [InsertApp i n p]\<rparr> in
      case fault of
        Some m \<Rightarrow> (Inl (DriverError m), db')
      | None \<Rightarrow>
          (Inr (clock db, clock db),
           db'\<lparr>apps := apps db @
                 [\<lparr>app_id = i, name = n, protected = p, created_at = clock db,
                   updated_at = clock db, deleted_at = None\<rparr>]\<rparr>))"

definition Begin :: "string option \<Rightarrow> DB \<Rightarrow> error option \<times> DB" where
  "Begin fault db =
     (let db' = db\<lparr>issued := issued db @ [BeginTx]\<rparr> in
      case fault of
        Some m \<Rightarrow> (Some (DriverError m), db')
      | None \<Rightarrow> (None, db'\<lparr>pending := Some (apps db)\<rparr>))"

definition Rollback :: "DB \<Rightarrow> DB" where
  "Rollback db = db\<lparr>pending := None, issued := issued db @ [RollbackTx]\<rparr>"

definition Commit :: "string option \<Rightarrow> DB \<Rightarrow> error option \<times> DB" where
  "Commit fault db =
     (let db' = db\<lparr>pending := None, issued := issued db @ [CommitTx]\<rparr> in
      case fault of
        Some m \<Rightarrow> (Some (DriverError m), db')
      | None \<Rightarrow>
          (case pending db of
             None \<Rightarrow> (Some sql_ErrTxDone, db')
           | Some rs \<Rightarrow> (None, db'\<lparr>apps := rs\<rparr>)))"

text \<open>\<^verbatim>\<open>tx.Exec("UPDATE apps SET protected = $2 WHERE app_id = $1", id, protected)\<close>\<close>

definition Exec_update :: "string option \<Rightarrow> DB \<Rightarrow> string \<Rightarrow> bool \<Rightarrow> error option \<times> DB" where
  "Exec_update fault db i p =
     (let db' = db\<lparr>issued := issued db @ [UpdateProtected i p]\<rparr> in
      case fault of
        Some m \<Rightarrow> (Some (DriverError m), db')
      | None \<Rightarrow>
          (case pending db of
             None \<Rightarrow> (Some sql_ErrTxDone, db')
           | Some rs \<Rightarrow>
               (None,
                db'\<lparr>pending :=
                      Some (map (\<lambda>r. if uuid_eq (app_id r) i then r\<lparr>protected := p\<rparr> else r) rs)\<rparr>)))"

section \<open>\<^verbatim>\<open>AppRepo\<close> (\<^verbatim>\<open>app.go\<close>)\<close>

text \<open>\<^verbatim>\<open>ct.App\<close>, by the fields \<^verbatim>\<open>app.go\<close> reads and writes; a nil time is \<open>None\<close>.\<close>

record App =
  ID :: string
  Name :: string
  Protected :: bool
  CreatedAt :: "nat option"
  UpdatedAt :: "nat option"

definition empty_App :: App where
  "empty_App = \<lparr>ID = [], Name = [], Protected = False, CreatedAt = None, UpdatedAt = None\<rparr>"

text \<open>
  \<^verbatim>\<open>func (r *AppRepo) Add(data interface{}) error\<close>. The app is passed by pointer, so
  the model returns it next to the error; \<open>fresh\<close> is the value \<^verbatim>\<open>utils.UUID()\<close>
  would return.
\<close>

definition Add :: "string \<Rightarrow> string option \<Rightarrow> App \<Rightarrow> DB \<Rightarrow> error option \<times> App \<times> DB" where
  "Add fresh fault app db =
     (if Name app = [] then
        (Some (ErrorsNew ''controller: app name must not be blank''), app, db)
      else if length (Name app) > 30 \<or> \<not> MatchString appNamePattern (Name app) then
        (Some (ErrorsNew ''controller: invalid app name''), app, db)
      else
        (let app1 = (if ID app = [] then app\<lparr>ID := fresh\<rparr> else app) in
         case insert_app fault db (ID app1) (Name app1) (Protected app1) of
           (Inl e, db') \<Rightarrow> (Some e, app1\<lparr>ID := cleanUUID (ID app1)\<rparr>, db')
         | (Inr (c, u), db') \<Rightarrow>
             (None, app1\<lparr>CreatedAt := Some c, UpdatedAt := Some u, ID := cleanUUID (ID app1)\<rparr>, db')))"

text \<open>\<^verbatim>\<open>func scanApp(s Scanner) (*ct.App, error)\<close>\<close>

definition Scan :: "Scanner \<Rightarrow> App \<Rightarrow> App \<times> error option" where
  "Scan s app =
     (case s of
        Row r \<Rightarrow>
          (app\<lparr>ID := app_id r, Name := name r, Protected := protected r,
                CreatedAt := Some (created_at r), UpdatedAt := Some (updated_at r)\<rparr>, None)
      | NoRow \<Rightarrow> (app, Some sql_ErrNoRows)
      | Failed e \<Rightarrow> (app, Some e))"

definition scanApp :: "Scanner \<Rightarrow> App \<times> error option" where
  "scanApp s =
     (case Scan s empty_App of
        (app, err) \<Rightarrow>
          (app\<lparr>ID := cleanUUID (ID app)\<rparr>,
           if err = Some sql_ErrNoRows then Some ErrNotFound else err))"

text \<open>\<^verbatim>\<open>func selectApp(db rowQueryer, id string, update bool) (*ct.App, error)\<close>\<close>

definition selectApp ::
  "rowQueryer \<Rightarrow> string option \<Rightarrow> DB \<Rightarrow> string \<Rightarrow> bool \<Rightarrow> (App \<times> error option) \<times> DB" where
  "selectApp h fault db ident update =
     (case (if MatchString idPattern ident
            then QueryRow h fault db (SelectAppByIDOrName ident ident update)
            else QueryRow h fault db (SelectAppByName ident update)) of
        (row, db') \<Rightarrow> (scanApp row, db'))"

text \<open>\<^verbatim>\<open>func (r *AppRepo) Get(id string) (interface{}, error)\<close>\<close>

definition Get :: "string option \<Rightarrow> DB \<Rightarrow> string \<Rightarrow> (App \<times> error option) \<times> DB" where
  "Get fault db ident = selectApp OnDB fault db ident False"

text \<open>
  A value of \<^verbatim>\<open>interface{}\<close> in the update payload. \<^verbatim>\<open>Update\<close> asks one thing of
  it, whether it is a \<^verbatim>\<open>bool\<close>, and otherwise prints its dynamic type with
  \<^verbatim>\<open>%T\<close>: a value that is not a bool is represented by that type name.
\<close>

datatype dyn = Bool bool | Other string

text \<open>The failures the store may answer with during one \<^verbatim>\<open>Update\<close>.\<close>

record faults =
  begin_fault :: "string option"
  query_fault :: "string option"
  exec_fault :: "string option"
  commit_fault :: "string option"

text \<open>
  The loop \<^verbatim>\<open>for k, v := range data\<close> of \<^verbatim>\<open>Update\<close>, over the entries of the map
  in the order the iteration yields them. An error ends it after \<^verbatim>\<open>tx.Rollback()\<close>.
\<close>

fun update_fields ::
  "string option \<Rightarrow> (string \<times> dyn) list \<Rightarrow> App \<Rightarrow> DB \<Rightarrow> error option \<times> App \<times> DB" where
  "update_fields xf [] app db = (None, app, db)"
| "update_fields xf ((k, v) # kvs) app db =
     (if k = ''protected'' then
        (case v of
           Other tn \<Rightarrow>
             (Some (ErrorsNew (''controller: expected bool, got '' @ tn)), app, Rollback db)
         | Bool p \<Rightarrow>
             (if Protected app \<noteq> p then
                (case Exec_update xf db (ID app) p of
                   (Some e, db') \<Rightarrow> (Some e, app, Rollback db')
                 | (None, db') \<Rightarrow> update_fields xf kvs (app\<lparr>Protected := p\<rparr>) db')
              else update_fields xf kvs app db))
      else update_fields xf kvs app db)"

text \<open>
  \<^verbatim>\<open>func (r *AppRepo) Update(id string, data map[string]interface{}) (interface{}, error)\<close>;
  a nil first result is \<open>None\<close>.
\<close>

definition Update ::
  "faults \<Rightarrow> string \<Rightarrow> (string \<times> dyn) list \<Rightarrow> DB \<Rightarrow> (App option \<times> error option) \<times> DB" where
  "Update f ident data db =
     (case Begin (begin_fault f) db of
        (Some e, db1) \<Rightarrow> ((None, Some e), db1)
      | (None, db1) \<Rightarrow>
          (case selectApp OnTx (query_fault f) db1 ident True of
             ((app, Some e), db2) \<Rightarrow> ((None, Some e), Rollback db2)
           | ((app, None), db2) \<Rightarrow>
               (case update_fields (exec_fault f) data app db2 of
                  (Some e, app', db3) \<Rightarrow> ((None, Some e), db3)
                | (None, app', db3) \<Rightarrow>
                    (case Commit (commit_fault f) db3 of
                       (ce, db4) \<Rightarrow> ((Some app', ce), db4)))))"

section \<open>Validation errors, invalid names and the row an identifier resolves to\<close>

text \<open>The two validation errors of \<^verbatim>\<open>Add\<close>.\<close>

definition is_validation_error :: "error \<Rightarrow> bool" where
  "is_validation_error e =
     (e = ErrorsNew ''controller: app name must not be blank'' \<or>
      e = ErrorsNew ''controller: invalid app name'')"

text \<open>A name that is blank, longer than 30 characters, or not a slug.\<close>

definition invalid_name :: "string \<Rightarrow> bool" where
  "invalid_name n = (n = [] \<or> 30 < length n \<or> \<not> is_slug n)"

text \<open>The app a row stands for, with its ID in clean form.\<close>

definition app_of_row :: "app_row \<Rightarrow> App" where
  "app_of_row r =
     \<lparr>ID = cleanUUID (app_id r), Name = name r, Protected = protected r,
      CreatedAt = Some (created_at r), UpdatedAt = Some (updated_at r)\<rparr>"

text \<open>
  The row an identifier resolves to: the first row that is not soft-deleted and whose ID
  or name is the identifier when it has the shape of a UUID, and whose name is the
  identifier otherwise.
\<close>

definition resolves :: "string \<Rightarrow> app_row \<Rightarrow> bool" where
  "resolves s r =
     (deleted_at r = None \<and>
      (if MatchString idPattern s then uuid_eq (app_id r) s \<or> name r = s else name r = s))"

definition lookup_app :: "string \<Rightarrow> app_row list \<Rightarrow> app_row option" where
  "lookup_app s rs = find (resolves s) rs"

section \<open>The controller client (\<^verbatim>\<open>Client.send\<close>, \<^verbatim>\<open>Client.get\<close>)\<close>

text \<open>
  Error values of package controller, the client. Its \<^verbatim>\<open>ErrNotFound\<close> is
  \<^verbatim>\<open>errors.New("controller: not found")\<close>, a value of its own;
  \<open>UnexpectedStatus n\<close> is \<^verbatim>\<open>fmt.Errorf("controller: unexpected status %d", n)\<close> and
  \<open>UrlError op url e\<close> is \<^verbatim>\<open>&url.Error{Op: op, URL: url, Err: e}\<close>. The other three
  are the errors of the libraries the client calls: \<^verbatim>\<open>json.Marshal\<close> and
  \<^verbatim>\<open>http.NewRequest\<close>, the transport, and the JSON decoder.
\<close>

datatype client_error =
    ErrNotFound_client
  | UnexpectedStatus int
  | UrlError string string client_error
  | EncodeError string
  | TransportError string
  | DecodeError string

record Request =
  Method :: string
  URL :: string
  ContentType :: string
  ReqBody :: string

record Response =
  StatusCode :: int
  Body :: string

text \<open>
  What the client calls and does not define: the JSON encoder and decoder, the
  constructor of requests (which parses the URL, so \<^verbatim>\<open>req.URL.String()\<close> is its to
  say) and the HTTP transport, which answers a request with a response or fails.
\<close>

record ('i, 'o) http_env =
  Marshal :: "'i \<Rightarrow> client_error + string"
  NewRequest :: "string \<Rightarrow> string \<Rightarrow> string \<Rightarrow> client_error + Request"
  Do :: "Request \<Rightarrow> client_error + Response"
  Decode :: "string \<Rightarrow> client_error + 'o"

text \<open>
  \<^verbatim>\<open>func (c *Client) send(method, path string, in, out interface{}) error\<close>. The
  client is its base URL; \<open>out\<close> says whether a value to decode into was given, and the
  decoded value is returned next to the absence of an error.
\<close>

definition send ::
  "('i, 'o) http_env \<Rightarrow> string \<Rightarrow> string \<Rightarrow> string \<Rightarrow> 'i \<Rightarrow> bool \<Rightarrow> client_error + 'o option" where
  "send env url method path inp out =
     (case Marshal env inp of
        Inl e \<Rightarrow> Inl e
      | Inr data \<Rightarrow>
          (case NewRequest env method (url @ path) data of
             Inl e \<Rightarrow> Inl e
           | Inr req0 \<Rightarrow>
               (let req = req0\<lparr>ContentType := ''application/json''\<rparr> in
                case Do env req of
                  Inl e \<Rightarrow> Inl e
                | Inr res \<Rightarrow>
                    (if StatusCode res \<noteq> 200 then
                       Inl (UrlError (Method req) (URL req) (UnexpectedStatus (StatusCode res)))
                     else if out then
                       (case Decode env (Body res) of Inl e \<Rightarrow> Inl e | Inr v \<Rightarrow> Inr (Some v))
                     else Inr None))))"

definition put :: "('i, 'o) http_env \<Rightarrow> string \<Rightarrow> string \<Rightarrow> 'i \<Rightarrow> bool \<Rightarrow> client_error + 'o option" where
  "put env url path inp out = send env url ''PUT'' path inp out"

definition post :: "('i, 'o) http_env \<Rightarrow> string \<Rightarrow> string \<Rightarrow> 'i \<Rightarrow> bool \<Rightarrow> client_error + 'o option" where
  "post env url path inp out = send env url ''POST'' path inp out"

text \<open>
  \<^verbatim>\<open>func (c *Client) get(path string, out interface{}) error\<close>; \<^verbatim>\<open>c.http.Get\<close> is the
  transport on a GET request for the URL, with no body.
\<close>

definition http_Get :: "('i, 'o) http_env \<Rightarrow> string \<Rightarrow> client_error + Response" where
  "http_Get env u =
     (case NewRequest env ''GET'' u [] of
        Inl e \<Rightarrow> Inl e
      | Inr req \<Rightarrow> Do env req)"

definition get :: "('i, 'o) http_env \<Rightarrow> string \<Rightarrow> string \<Rightarrow> client_error + 'o" where
  "get env url path =
     (case http_Get env (url @ path) of
        Inl e \<Rightarrow> Inl e
      | Inr res \<Rightarrow>
          (if StatusCode res \<noteq> 200 then
             (if StatusCode res = 404 then Inl ErrNotFound_client
              else Inl (UrlError ''GET'' (url @ path) (UnexpectedStatus (StatusCode res))))
           else Decode env (Body res)))"

text \<open>
  A server for the examples: it answers every request with the given status and an
  empty JSON object; encoding, request construction and decoding never fail.
\<close>

definition answering :: "int \<Rightarrow> (string, string) http_env" where
  "answering n =
     \<lparr>Marshal = (\<lambda>i. Inr i),
      NewRequest = (\<lambda>m u b. Inr \<lparr>Method = m, URL = u, ContentType = [], ReqBody = b\<rparr>),
      Do = (\<lambda>req. Inr \<lparr>StatusCode = n, Body = ''{}''\<rparr>),
      Decode = (\<lambda>b. Inr b)\<rparr>"

section \<open>The cluster as the job endpoints see it (\<^verbatim>\<open>jobs_test.go\<close>)\<close>

text \<open>
  The types of the cluster, by the fields the tests build and read:
  \<^verbatim>\<open>docker.Config\<close>, \<^verbatim>\<open>host.Job\<close>, \<^verbatim>\<open>host.Host\<close> and the controller's
  \<^verbatim>\<open>ct.Job\<close>. A Go map from strings to strings is a partial function; reading a key
  that is not there gives the empty string. A nil \<^verbatim>\<open>Config\<close> is \<open>None\<close>, a nil slice
  the empty list.
\<close>

record docker_Config =
  Cmd :: "string list"
  Env :: "string list"
  AttachStdout :: bool
  AttachStderr :: bool
  AttachStdin :: bool
  StdinOnce :: bool
  OpenStdin :: bool

record host_Job =
  host_Job_ID :: string
  Attributes :: "string \<rightharpoonup> string"
  Config :: "docker_Config option"

record host_Host =
  host_ID :: string
  Jobs :: "host_Job list"

record ct_Job =
  Job_ID :: string
  Job_Type :: string
  Job_ReleaseID :: string
  Job_Cmd :: "string list"

definition index_or_empty :: "(string \<rightharpoonup> string) \<Rightarrow> string \<Rightarrow> string" where
  "index_or_empty m k = (case m k of None \<Rightarrow> [] | Some v \<Rightarrow> v)"

text \<open>
  \<^verbatim>\<open>fakeHostClient\<close>: the jobs it was asked to stop.
  \<^verbatim>\<open>func (c *fakeHostClient) StopJob(id string) error\<close> records the ID and returns nil.
\<close>

record fakeHostClient =
  stopped :: "string \<Rightarrow> bool"

definition newFakeHostClient :: fakeHostClient where
  "newFakeHostClient = \<lparr>stopped = (\<lambda>j. False)\<rparr>"

definition StopJob :: "fakeHostClient \<Rightarrow> string \<Rightarrow> error option \<times> fakeHostClient" where
  "StopJob c j = (None, c\<lparr>stopped := (stopped c)(j := True)\<rparr>)"


text \<open>
  \<^verbatim>\<open>fakeCluster\<close>: the hosts in the order \<^verbatim>\<open>ListHosts\<close> yields them, and the host
  clients by host ID. \<^verbatim>\<open>DialHost\<close> returns \<^verbatim>\<open>ErrNotFound\<close> for an ID with no client.
  The clients are held by pointer: what a call does to one is written back under its ID.
\<close>

record fakeCluster =
  hosts :: "(string \<times> host_Host) list"
  hostClients :: "string \<rightharpoonup> fakeHostClient"

definition ListHosts :: "fakeCluster \<Rightarrow> (string \<times> host_Host) list" where
  "ListHosts c = hosts c"

definition DialHost :: "fakeCluster \<Rightarrow> string \<Rightarrow> error + fakeHostClient" where
  "DialHost c h = (case hostClients c h of None \<Rightarrow> Inl ErrNotFound | Some client \<Rightarrow> Inr client)"

definition setHostClient :: "fakeCluster \<Rightarrow> string \<Rightarrow> fakeHostClient \<Rightarrow> fakeCluster" where
  "setHostClient c h client = c\<lparr>hostClients := (hostClients c)(h \<mapsto> client)\<rparr>"

section \<open>Job listing and kill\<close>

text \<open>
  Modelled from the spec: the handler of \<^verbatim>\<open>GET /apps/{app}/jobs\<close> is not among the
  sources (only its test, \<^verbatim>\<open>TestJobList\<close>, is). The spec, 4.6: "enumerate all hosts via
  ClusterView; for each host's active jobs, keep only those whose attributes tag the
  requested AppID; project into the public Job shape: ID = hostID + "-" + jobID, Type and
  ReleaseID from attributes (absent if untagged), Cmd from the host-side container
  command." The attribute keys are those of the test.
\<close>

definition tags_app :: "string \<Rightarrow> host_Job \<Rightarrow> bool" where
  "tags_app app j = (Attributes j ''flynn-controller.app'' = Some app)"

definition public_job :: "string \<Rightarrow> host_Job \<Rightarrow> ct_Job" where
  "public_job h j =
     \<lparr>Job_ID = h @ ''-'' @ host_Job_ID j,
      Job_Type = index_or_empty (Attributes j) ''flynn-controller.type'',
      Job_ReleaseID = index_or_empty (Attributes j) ''flynn-controller.release'',
      Job_Cmd = (case Config j of None \<Rightarrow> [] | Some cfg \<Rightarrow> Cmd cfg)\<rparr>"

fun jobs_of_hosts :: "string \<Rightarrow> (string \<times> host_Host) list \<Rightarrow> ct_Job list" where
  "jobs_of_hosts app [] = []"
| "jobs_of_hosts app ((h, hst) # rest) =
     map (public_job h) (filter (tags_app app) (Jobs hst)) @ jobs_of_hosts app rest"

definition jobList :: "fakeCluster \<Rightarrow> string \<Rightarrow> ct_Job list" where
  "jobList c app = jobs_of_hosts app (ListHosts c)"

text \<open>
  Modelled from the spec: the handler of \<^verbatim>\<open>DELETE /apps/{app}/jobs/{hostID}-{jobID}\<close>
  is not among the sources (only its test, \<^verbatim>\<open>TestKillJob\<close>, and the fakes above are).
  The spec, 4.6: "decompose the composite ID into hostID + local jobID; fail with
  NotFound if the host is unknown; otherwise invoke the host's stop operation". How the
  ID decomposes the spec says twice, and the two differ where a host ID holds a hyphen:
  8.2 splits at "the first separator" (\<open>parseJobID\<close>); 3 decomposes "into an existing
  host ID prefix and a remainder job ID" (\<open>parseKnownHost\<close>: the ways to split the ID at
  one of its hyphens, shortest host part first, and of these the first whose host part
  is a known host). The handler is modelled over either decomposition (\<open>killJobBy\<close>). An
  ID that does not decompose names no host and is answered NotFound as well.
\<close>

definition parseJobID :: "string \<Rightarrow> (string \<times> string) option" where
  "parseJobID s =
     (if CHR ''-'' \<in> set s
      then Some (takeWhile (\<lambda>c. c \<noteq> CHR ''-'') s, tl (dropWhile (\<lambda>c. c \<noteq> CHR ''-'') s))
      else None)"

fun hyphen_splits :: "string \<Rightarrow> (string \<times> string) list" where
  "hyphen_splits [] = []"
| "hyphen_splits (x # xs) =
     (if x = CHR ''-'' then [([], xs)] else []) @
     map (\<lambda>(h, j). (x # h, j)) (hyphen_splits xs)"

definition parseKnownHost :: "fakeCluster \<Rightarrow> string \<Rightarrow> (string \<times> string) option" where
  "parseKnownHost c s = find (\<lambda>(h, j). hostClients c h \<noteq> None) (hyphen_splits s)"

definition killJobBy ::
  "(string \<Rightarrow> (string \<times> string) option) \<Rightarrow> fakeCluster \<Rightarrow> string \<Rightarrow> error option \<times> fakeCluster" where
  "killJobBy parse c jobs_id =
     (case parse jobs_id of
        None \<Rightarrow> (Some ErrNotFound, c)
      | Some (h, j) \<Rightarrow>
          (case DialHost c h of
             Inl e \<Rightarrow> (Some e, c)
           | Inr client \<Rightarrow>
               (case StopJob client j of
                  (err, client') \<Rightarrow> (err, setHostClient c h client'))))"

definition killJob :: "fakeCluster \<Rightarrow> string \<Rightarrow> error option \<times> fakeCluster" where
  "killJob c jobs_id = killJobBy parseJobID c jobs_id"

definition killJobKnownHost :: "fakeCluster \<Rightarrow> string \<Rightarrow> error option \<times> fakeCluster" where
  "killJobKnownHost c jobs_id = killJobBy (parseKnownHost c) c jobs_id"


section \<open>The matcher decides the language of its pattern\<close>

lemma nullable_iff: "nullable r \<longleftrightarrow> [] \<in> lang r"
  by (induction r) (auto simp: conc_def intro: star.star_nil)

lemma Cons_in_conc:
  "c # w \<in> conc A B \<longleftrightarrow>
     ([] \<in> A \<and> c # w \<in> B) \<or> (\<exists>xs ys. w = xs @ ys \<and> c # xs \<in> A \<and> ys \<in> B)"
  unfolding conc_def by (auto simp: Cons_eq_append_conv) 

lemma Cons_in_star_D:
  assumes "u \<in> star A" and "u = c # w"
  shows "\<exists>xs ys. w = xs @ ys \<and> c # xs \<in> A \<and> ys \<in> star A"
  using assms
proof (induction arbitrary: w rule: star.induct)
  case star_nil
  then show ?case by simp
next
  case (star_app xs ys)
  show ?case
  proof (cases xs)
    case Nil
    with star_app show ?thesis by simp
  next
    case (Cons a as)
    with star_app.prems have "a = c" and "w = as @ ys" by simp_all
    with Cons star_app.hyps show ?thesis by blast
  qed
qed

lemma Cons_in_star:
  "c # w \<in> star A \<longleftrightarrow> (\<exists>xs ys. w = xs @ ys \<and> c # xs \<in> A \<and> ys \<in> star A)"
proof
  assume "c # w \<in> star A"
  then show "\<exists>xs ys. w = xs @ ys \<and> c # xs \<in> A \<and> ys \<in> star A"
    by (rule Cons_in_star_D) simp
next
  assume "\<exists>xs ys. w = xs @ ys \<and> c # xs \<in> A \<and> ys \<in> star A"
  then obtain xs ys where "w = xs @ ys" "c # xs \<in> A" "ys \<in> star A" by blast
  then show "c # w \<in> star A"
    using star.star_app [of "c # xs" A ys] by simp
qed

lemma lang_deriv: "lang (deriv c r) = {w. c # w \<in> lang r}"
proof (induction r)
  case (Times r s)
  then show ?case
    by (auto simp: Cons_in_conc nullable_iff) (auto simp: conc_def)
next
  case (Star r)
  then show ?case
    by (auto simp: Cons_in_star) (auto simp: conc_def)
qed auto

lemma lang_derivs: "w \<in> lang (derivs r s) \<longleftrightarrow> s @ w \<in> lang r"
  by (induction s arbitrary: r) (simp_all add: lang_deriv)

lemma MatchString_lang: "MatchString r s \<longleftrightarrow> s \<in> lang r"
  by (simp add: MatchString_def nullable_iff lang_derivs)

section \<open>The app name pattern, in words\<close>

lemma in_class_lower_alnum: "in_class lower_alnum c \<longleftrightarrow> is_lower_alnum c"
  by (simp add: in_class_def lower_alnum_def in_range_def is_lower_alnum_def)

lemma star_singletons: "star {[c] | c. P c} = {w. list_all P w}"
proof (rule set_eqI, rule iffI)
  fix w
  assume "w \<in> star {[c] | c. P c}"
  then show "w \<in> {w. list_all P w}"
    by (induction rule: star.induct) auto
next
  fix w
  assume "w \<in> {w. list_all P w}"
  then have "list_all P w" by simp
  then show "w \<in> star {[c] | c. P c}"
  proof (induction w)
    case Nil
    show ?case by (rule star.star_nil)
  next
    case (Cons a w)
    then have "[a] \<in> {[c] | c. P c}" and "w \<in> star {[c] | c. P c}" by auto
    then have "[a] @ w \<in> star {[c] | c. P c}" by (rule star.star_app)
    then show ?case by simp
  qed
qed

lemma conc_singletons: "conc {[c] | c. P c} B = {c # w | c w. P c \<and> w \<in> B}"
proof (rule set_eqI, rule iffI)
  fix u
  assume "u \<in> conc {[c] | c. P c} B"
  then show "u \<in> {c # w | c w. P c \<and> w \<in> B}" by (auto simp: conc_def)
next
  fix u
  assume "u \<in> {c # w | c w. P c \<and> w \<in> B}"
  then obtain c w where "u = [c] @ w" "P c" "w \<in> B" by auto
  then show "u \<in> conc {[c] | c. P c} B" unfolding conc_def by blast
qed

lemma in_class_single: "in_class [(c, c)] x \<longleftrightarrow> x = c"
proof -
  have "in_class [(c, c)] x \<longleftrightarrow> (of_char x :: nat) = of_char c"
    by (auto simp: in_class_def in_range_def)
  then show ?thesis by simp
qed

lemma lang_Lit: "lang (Lit c) = {[c]}"
  by (simp add: Lit_def in_class_single)

lemma lang_Plus_lower_alnum: "lang (Plus (Class lower_alnum)) = {r. is_run r}"
proof -
  have "lang (Plus (Class lower_alnum)) =
        {c # w | c w. is_lower_alnum c \<and> w \<in> {w. list_all is_lower_alnum w}}"
    by (simp add: Plus_def in_class_lower_alnum star_singletons conc_singletons)
  also have "\<dots> = {r. is_run r}"
    by (auto simp: is_run_def neq_Nil_conv)
  finally show ?thesis .
qed

lemma join_hyphen_Cons: "join_hyphen (r # rs) = r @ hyphen_runs rs"
  by (induction rs arbitrary: r) (simp_all add: hyphen_runs_def)

lemma star_hyphen_runs:
  "star {CHR ''-'' # r | r. is_run r} = {hyphen_runs rs | rs. list_all is_run rs}"
proof (rule set_eqI, rule iffI)
  fix w
  assume "w \<in> star {CHR ''-'' # r | r. is_run r}"
  then have "\<exists>rs. w = hyphen_runs rs \<and> list_all is_run rs"
  proof (induction rule: star.induct)
    case star_nil
    have "[] = hyphen_runs [] \<and> list_all is_run []" by (simp add: hyphen_runs_def)
    then show ?case by blast
  next
    case (star_app xs ys)
    then obtain r rs where "xs = CHR ''-'' # r" "is_run r" "ys = hyphen_runs rs" "list_all is_run rs"
      by auto
    then have "xs @ ys = hyphen_runs (r # rs) \<and> list_all is_run (r # rs)"
      by (simp add: hyphen_runs_def)
    then show ?case by blast
  qed
  then show "w \<in> {hyphen_runs rs | rs. list_all is_run rs}" by blast
next
  fix w
  assume "w \<in> {hyphen_runs rs | rs. list_all is_run rs}"
  then obtain rs where w: "w = hyphen_runs rs" and "list_all is_run rs" by blast
  from this(2) have "hyphen_runs rs \<in> star {CHR ''-'' # r | r. is_run r}"
  proof (induction rs)
    case Nil
    show ?case by (simp add: hyphen_runs_def star.star_nil)
  next
    case (Cons r rs)
    then have "CHR ''-'' # r \<in> {CHR ''-'' # r | r. is_run r}"
      and "hyphen_runs rs \<in> star {CHR ''-'' # r | r. is_run r}" by auto
    then have "(CHR ''-'' # r) @ hyphen_runs rs \<in> star {CHR ''-'' # r | r. is_run r}"
      by (rule star.star_app)
    then show ?case by (simp add: hyphen_runs_def)
  qed
  with w show "w \<in> star {CHR ''-'' # r | r. is_run r}" by simp
qed

lemma conc_hyphen_run:
  "conc {[CHR ''-'']} {r. is_run r} = {CHR ''-'' # r | r. is_run r}"
proof -
  have "{[CHR ''-'']} = {[c] | c. c = CHR ''-''}" by auto
  then have "conc {[CHR ''-'']} {r. is_run r} = conc {[c] | c. c = CHR ''-''} {r. is_run r}"
    by simp
  also have "\<dots> = {CHR ''-'' # r | r. is_run r}"
    unfolding conc_singletons by auto
  finally show ?thesis .
qed

lemma lang_appNamePattern: "lang appNamePattern = {s. is_slug s}"
proof -
  have "lang appNamePattern = conc {r. is_run r} {hyphen_runs rs | rs. list_all is_run rs}"
    by (simp only: appNamePattern_def lang.simps(4,6) lang_Lit lang_Plus_lower_alnum conc_hyphen_run star_hyphen_runs)
  also have "\<dots> = {s. is_slug s}"
  proof (rule set_eqI, rule iffI)
    fix s
    assume "s \<in> conc {r. is_run r} {hyphen_runs rs | rs. list_all is_run rs}"
    then obtain r rs where "s = r @ hyphen_runs rs" "is_run r" "list_all is_run rs"
      by (auto simp: conc_def)
    then have "r # rs \<noteq> [] \<and> list_all is_run (r # rs) \<and> s = join_hyphen (r # rs)"
      by (simp add: join_hyphen_Cons)
    then show "s \<in> {s. is_slug s}" unfolding is_slug_def by blast
  next
    fix s
    assume "s \<in> {s. is_slug s}"
    then obtain runs where "runs \<noteq> []" "list_all is_run runs" "s = join_hyphen runs"
      unfolding is_slug_def by blast
    then obtain r rs where "runs = r # rs" by (cases runs) auto
    with \<open>list_all is_run runs\<close> \<open>s = join_hyphen runs\<close>
    have "s = r @ hyphen_runs rs" "is_run r" "list_all is_run rs"
      by (simp_all add: join_hyphen_Cons)
    then show "s \<in> conc {r. is_run r} {hyphen_runs rs | rs. list_all is_run rs}"
      unfolding conc_def by blast
  qed
  finally show ?thesis .
qed

lemma appNamePattern_is_slug: "MatchString appNamePattern s \<longleftrightarrow> is_slug s"
  by (simp add: MatchString_lang lang_appNamePattern)

lemmas match_simps = MatchString_def appNamePattern_def idPattern_def lower_alnum_def lower_hex_def Lit_def Plus_def Quest_def in_class_def in_range_def

section \<open>\<^verbatim>\<open>AppRepo.Add\<close>\<close>

lemma cleanUUID_no_hyphen: "CHR ''-'' \<notin> set (cleanUUID u)"
  by (simp add: cleanUUID_def)

lemma invalid_name_iff:
  "invalid_name n \<longleftrightarrow> n = [] \<or> 30 < length n \<or> \<not> MatchString appNamePattern n"
  by (simp add: invalid_name_def appNamePattern_is_slug)

lemma Add_invalid: "invalid_name (Name app) \<Longrightarrow>
  \<exists>e. Add fresh fault app db = (Some e, app, db) \<and> is_validation_error e"
  by (auto simp: invalid_name_iff Add_def is_validation_error_def)

lemma issued_insert_app:
  "issued (snd (insert_app fault db i n p)) = issued db @ [InsertApp i n p]"
  by (simp add: insert_app_def Let_def split: option.split)

lemma insert_app_error: "fst (insert_app fault db i n p) = Inl e \<Longrightarrow> \<not> is_validation_error e"
  by (auto simp: insert_app_def Let_def is_validation_error_def split: option.splits)

lemma Add_valid:
  assumes "\<not> invalid_name (Name app)"
  shows "issued (snd (snd (Add fresh fault app db))) =
           issued db @ [InsertApp (if ID app = [] then fresh else ID app) (Name app) (Protected app)]"
    and "ID (fst (snd (Add fresh fault app db))) = cleanUUID (if ID app = [] then fresh else ID app)"
    and "fst (Add fresh fault app db) = Some e \<Longrightarrow> \<not> is_validation_error e"
  using assms
  by (auto simp: invalid_name_iff Add_def Let_def insert_app_def is_validation_error_def split: option.splits prod.splits sum.splits)

text \<open>
  C8. \<^verbatim>\<open>Add\<close> returns one of its two validation errors exactly when the name is
  blank, longer than 30 characters or not a slug (the pattern read in words, by
  \<open>appNamePattern_is_slug\<close>); exactly then it issues no statement, and leaves the app and
  the store as they were. For any other name it issues the INSERT, once. When it returns
  no error, the ID of the app is the clean form of the ID given (or of the fresh one) and
  holds no hyphen. The length is counted in bytes, as \<^verbatim>\<open>len\<close> does; a name with a
  character of more than one byte is not a slug in any case.
\<close>

theorem Add_validates_name:
  "((\<exists>e. fst (Add fresh fault app db) = Some e \<and> is_validation_error e) \<longleftrightarrow>
      invalid_name (Name app)) \<and>
   (issued (snd (snd (Add fresh fault app db))) = issued db \<longleftrightarrow> invalid_name (Name app)) \<and>
   (invalid_name (Name app) \<longrightarrow> snd (Add fresh fault app db) = (app, db)) \<and>
   (\<not> invalid_name (Name app) \<longrightarrow>
      issued (snd (snd (Add fresh fault app db))) =
        issued db @ [InsertApp (if ID app = [] then fresh else ID app) (Name app) (Protected app)]) \<and>
   (fst (Add fresh fault app db) = None \<longrightarrow>
      ID (fst (snd (Add fresh fault app db))) = cleanUUID (if ID app = [] then fresh else ID app) \<and>
      CHR ''-'' \<notin> set (ID (fst (snd (Add fresh fault app db)))))"
proof (cases "invalid_name (Name app)")
  case True
  then obtain e where "Add fresh fault app db = (Some e, app, db)" "is_validation_error e"
    using Add_invalid by blast
  with True show ?thesis by simp
next
  case False
  note v = Add_valid [OF False, of fresh fault db]
  have "\<not> (\<exists>e. fst (Add fresh fault app db) = Some e \<and> is_validation_error e)"
    using v(3) by blast
  moreover have "issued (snd (snd (Add fresh fault app db))) \<noteq> issued db"
    using v(1) by simp
  ultimately show ?thesis
    using False v(1,2) by (simp add: cleanUUID_no_hyphen)
qed

theorem Add_validates_name_witness:
  "\<not> invalid_name ''job-list'' \<and>
   fst (Add ''a0eebc99-9c0b-4ef8-bb6d-6bb9bd380a11'' None
          \<lparr>ID = [], Name = ''job-list'', Protected = False, CreatedAt = None, UpdatedAt = None\<rparr>
          \<lparr>apps = [], pending = None, issued = [], clock = 7\<rparr>) = None \<and>
   ID (fst (snd (Add ''a0eebc99-9c0b-4ef8-bb6d-6bb9bd380a11'' None
          \<lparr>ID = [], Name = ''job-list'', Protected = False, CreatedAt = None, UpdatedAt = None\<rparr>
          \<lparr>apps = [], pending = None, issued = [], clock = 7\<rparr>))) = ''a0eebc999c0b4ef8bb6d6bb9bd380a11'' \<and>
   issued (snd (snd (Add ''a0eebc99-9c0b-4ef8-bb6d-6bb9bd380a11'' None
          \<lparr>ID = [], Name = ''job-list'', Protected = False, CreatedAt = None, UpdatedAt = None\<rparr>
          \<lparr>apps = [], pending = None, issued = [], clock = 7\<rparr>))) =
     [InsertApp ''a0eebc99-9c0b-4ef8-bb6d-6bb9bd380a11'' ''job-list'' False] \<and>
   invalid_name ''job--list'' \<and>
   snd (Add ''a0eebc99-9c0b-4ef8-bb6d-6bb9bd380a11'' None
          \<lparr>ID = [], Name = ''job--list'', Protected = False, CreatedAt = None, UpdatedAt = None\<rparr>
          \<lparr>apps = [], pending = None, issued = [], clock = 7\<rparr>) =
     (\<lparr>ID = [], Name = ''job--list'', Protected = False, CreatedAt = None, UpdatedAt = None\<rparr>,
      \<lparr>apps = [], pending = None, issued = [], clock = 7\<rparr>)"
proof -
  have a: "\<not> invalid_name ''job-list''"
    by (simp add: invalid_name_iff match_simps)
  have b: "invalid_name ''job--list''"
    by (simp add: invalid_name_iff match_simps)
  have c: "fst (Add ''a0eebc99-9c0b-4ef8-bb6d-6bb9bd380a11'' None
          \<lparr>ID = [], Name = ''job-list'', Protected = False, CreatedAt = None, UpdatedAt = None\<rparr>
          \<lparr>apps = [], pending = None, issued = [], clock = 7\<rparr>) = None"
    by (simp add: Add_def insert_app_def match_simps)
  show ?thesis
    using a b c
      Add_validates_name [of "''a0eebc99-9c0b-4ef8-bb6d-6bb9bd380a11''" None
          "\<lparr>ID = [], Name = ''job-list'', Protected = False, CreatedAt = None, UpdatedAt = None\<rparr>"
          "\<lparr>apps = [], pending = None, issued = [], clock = 7\<rparr>"]
      Add_validates_name [of "''a0eebc99-9c0b-4ef8-bb6d-6bb9bd380a11''" None
          "\<lparr>ID = [], Name = ''job--list'', Protected = False, CreatedAt = None, UpdatedAt = None\<rparr>"
          "\<lparr>apps = [], pending = None, issued = [], clock = 7\<rparr>"]
    by (simp add: cleanUUID_def)
qed

section \<open>\<^verbatim>\<open>selectApp\<close> and \<^verbatim>\<open>AppRepo.Get\<close>\<close>

lemma first_of_filter:
  "(case filter P rs of [] \<Rightarrow> a | r # x \<Rightarrow> b r) = (case find P rs of None \<Rightarrow> a | Some r \<Rightarrow> b r)"
  by (induction rs) simp_all

lemma take1_filter:
  "take (Suc 0) (filter P rs) = (case find P rs of None \<Rightarrow> [] | Some r \<Rightarrow> [r])"
  by (induction rs) simp_all

lemma scanApp_Row: "scanApp (Row r) = (app_of_row r, None)"
  by (simp add: scanApp_def Scan_def empty_App_def app_of_row_def)

lemma scanApp_NoRow: "scanApp NoRow = (empty_App, Some ErrNotFound)"
  by (simp add: scanApp_def Scan_def empty_App_def cleanUUID_def)

lemma scanApp_Failed: "scanApp (Failed (DriverError m)) = (empty_App, Some (DriverError m))"
  by (simp add: scanApp_def Scan_def empty_App_def cleanUUID_def)

lemma resolves_id: "MatchString idPattern s \<Longrightarrow>
  resolves s = (\<lambda>r. deleted_at r = None \<and> (uuid_eq (app_id r) s \<or> name r = s))"
  by (rule ext) (simp add: resolves_def)

lemma resolves_name: "\<not> MatchString idPattern s \<Longrightarrow>
  resolves s = (\<lambda>r. deleted_at r = None \<and> name r = s)"
  by (rule ext) (simp add: resolves_def)

lemma QueryRow_select:
  assumes "rows_of h db = Some rs"
    and "q = (if MatchString idPattern s then SelectAppByIDOrName s s u else SelectAppByName s u)"
  shows "fst (QueryRow h None db q) = (case lookup_app s rs of None \<Rightarrow> NoRow | Some r \<Rightarrow> Row r)"
proof (cases "MatchString idPattern s")
  case True
  with assms show ?thesis
    by (simp add: QueryRow_def Let_def lookup_app_def resolves_id take1_filter
        split: option.splits)
next
  case False
  with assms show ?thesis
    by (simp add: QueryRow_def Let_def lookup_app_def resolves_name first_of_filter
        split: option.splits)
qed

lemma snd_QueryRow: "snd (QueryRow h fault db q) = db\<lparr>issued := issued db @ [q]\<rparr>"
  by (simp add: QueryRow_def Let_def split: option.splits list.splits)

lemma selectApp_found:
  assumes "rows_of h db = Some rs"
  shows "fst (selectApp h None db s u) =
          (case lookup_app s rs of None \<Rightarrow> (empty_App, Some ErrNotFound) | Some r \<Rightarrow> (app_of_row r, None))"
proof -
  let ?q = "if MatchString idPattern s then SelectAppByIDOrName s s u else SelectAppByName s u"
  have "fst (selectApp h None db s u) = scanApp (fst (QueryRow h None db ?q))"
    by (simp add: selectApp_def split: prod.splits)
  also have "\<dots> = scanApp (case lookup_app s rs of None \<Rightarrow> NoRow | Some r \<Rightarrow> Row r)"
    using QueryRow_select [OF assms refl] by simp
  finally show ?thesis
    by (simp add: scanApp_Row scanApp_NoRow split: option.splits)
qed

lemma selectApp_fault:
  "fst (selectApp h (Some m) db s u) = (empty_App, Some (DriverError m))"
  by (simp add: selectApp_def QueryRow_def Let_def scanApp_Failed)

lemma snd_selectApp:
  "snd (selectApp h fault db s u) =
     db\<lparr>issued := issued db @
        [if MatchString idPattern s then SelectAppByIDOrName s s u else SelectAppByName s u]\<rparr>"
  by (simp add: selectApp_def case_prod_unfold snd_QueryRow)

lemma lookup_app_Some:
  "lookup_app s rs = Some r \<Longrightarrow> r \<in> set rs \<and> resolves s r"
  by (auto simp: lookup_app_def find_Some_iff)

lemma lookup_app_None: "lookup_app s rs = None \<longleftrightarrow> (\<forall>r\<in>set rs. \<not> resolves s r)"
  by (auto simp: lookup_app_def find_None_iff)

lemma lookup_app_first:
  "lookup_app s rs = Some r \<longleftrightarrow>
     (\<exists>pre post. rs = pre @ r # post \<and> resolves s r \<and> (\<forall>x\<in>set pre. \<not> resolves s x))"
proof
  assume "lookup_app s rs = Some r"
  then obtain i where i: "i < length rs" "resolves s (rs ! i)" "r = rs ! i"
    "\<forall>j<i. \<not> resolves s (rs ! j)"
    by (auto simp: lookup_app_def find_Some_iff)
  have "rs = take i rs @ r # drop (Suc i) rs"
    using i(1,3) by (simp add: id_take_nth_drop)
  moreover have "\<forall>x\<in>set (take i rs). \<not> resolves s x"
    using i(1,4) by (auto simp: in_set_conv_nth)
  ultimately show "\<exists>pre post. rs = pre @ r # post \<and> resolves s r \<and> (\<forall>x\<in>set pre. \<not> resolves s x)"
    using i(2,3) by blast
next
  assume "\<exists>pre post. rs = pre @ r # post \<and> resolves s r \<and> (\<forall>x\<in>set pre. \<not> resolves s x)"
  then obtain pre post where rs: "rs = pre @ r # post" and r: "resolves s r"
    and pre: "\<forall>x\<in>set pre. \<not> resolves s x" by blast
  from pre have "find (resolves s) (pre @ r # post) = find (resolves s) (r # post)"
    by (induction pre) simp_all
  with rs r show "lookup_app s rs = Some r" by (simp add: lookup_app_def)
qed

lemma idPattern_examples:
  "\<not> MatchString idPattern ''web''"
  "\<not> MatchString idPattern ''nope''"
  "MatchString idPattern ''b1ffcd000d1c4fa98c7e7cc0ce491b22''"
  "MatchString idPattern ''a0eebc99-9c0b-4ef8-bb6d-6bb9bd380a11''"
  by (simp_all add: match_simps eval_nat_numeral)

text \<open>
  C10. \<^verbatim>\<open>Get\<close> resolves an identifier as a name as well as an ID. When the store
  answers, the result is the app of the first row that is not soft-deleted and whose ID
  (as a UUID) or name is the identifier if it has the shape of a UUID, and whose name is
  the identifier otherwise (\<open>lookup_app\<close>, first by \<open>lookup_app_first\<close>); the ID comes
  back in clean form. A row returned is never soft-deleted. When no row resolves the
  identifier the error is \<^verbatim>\<open>ErrNotFound\<close>; the app returned next to it is the empty
  one, as \<^verbatim>\<open>scanApp\<close> builds it before the scan. \<^verbatim>\<open>Get\<close> changes no row.
\<close>

theorem Get_resolves_id_or_name:
  "fst (Get None db s) =
     (case lookup_app s (apps db) of
        None \<Rightarrow> (empty_App, Some ErrNotFound)
      | Some r \<Rightarrow> (app_of_row r, None)) \<and>
   (snd (fst (Get None db s)) = None \<longrightarrow>
      (\<exists>r\<in>set (apps db). fst (fst (Get None db s)) = app_of_row r \<and> deleted_at r = None \<and>
          (MatchString idPattern s \<and> uuid_eq (app_id r) s \<or> name r = s))) \<and>
   ((\<forall>r\<in>set (apps db). \<not> resolves s r) \<longrightarrow> fst (Get None db s) = (empty_App, Some ErrNotFound)) \<and>
   apps (snd (Get fault db s)) = apps db"
proof -
  have eq: "fst (Get None db s) =
     (case lookup_app s (apps db) of
        None \<Rightarrow> (empty_App, Some ErrNotFound)
      | Some r \<Rightarrow> (app_of_row r, None))"
    unfolding Get_def by (rule selectApp_found) (simp add: rows_of_def)
  have found: "\<exists>r\<in>set (apps db). fst (fst (Get None db s)) = app_of_row r \<and> deleted_at r = None \<and>
          (MatchString idPattern s \<and> uuid_eq (app_id r) s \<or> name r = s)"
    if "snd (fst (Get None db s)) = None"
  proof (cases "lookup_app s (apps db)")
    case None
    with eq that show ?thesis by simp
  next
    case (Some r)
    then have "r \<in> set (apps db)" "resolves s r" by (simp_all add: lookup_app_Some)
    moreover from Some eq have "fst (fst (Get None db s)) = app_of_row r" by simp
    ultimately show ?thesis by (auto simp: resolves_def split: if_splits)
  qed
  have missing: "fst (Get None db s) = (empty_App, Some ErrNotFound)"
    if "\<forall>r\<in>set (apps db). \<not> resolves s r"
    using that eq lookup_app_None [of s "apps db"] by simp
  have "apps (snd (Get fault db s)) = apps db"
    by (simp add: Get_def snd_selectApp)
  with eq found missing show ?thesis by blast
qed

theorem Get_resolves_id_or_name_witness:
  "fst (Get None
      \<lparr>apps = [\<lparr>app_id = ''a0eebc99-9c0b-4ef8-bb6d-6bb9bd380a11'', name = ''web'', protected = False,
                 created_at = 1, updated_at = 1, deleted_at = Some 5\<rparr>,
               \<lparr>app_id = ''b1ffcd00-0d1c-4fa9-8c7e-7cc0ce491b22'', name = ''web'', protected = True,
                 created_at = 6, updated_at = 6, deleted_at = None\<rparr>],
        pending = None, issued = [], clock = 7\<rparr> ''web'') =
     (\<lparr>ID = ''b1ffcd000d1c4fa98c7e7cc0ce491b22'', Name = ''web'', Protected = True,
       CreatedAt = Some 6, UpdatedAt = Some 6\<rparr>, None) \<and>
   fst (Get None
      \<lparr>apps = [\<lparr>app_id = ''a0eebc99-9c0b-4ef8-bb6d-6bb9bd380a11'', name = ''web'', protected = False,
                 created_at = 1, updated_at = 1, deleted_at = Some 5\<rparr>,
               \<lparr>app_id = ''b1ffcd00-0d1c-4fa9-8c7e-7cc0ce491b22'', name = ''web'', protected = True,
                 created_at = 6, updated_at = 6, deleted_at = None\<rparr>],
        pending = None, issued = [], clock = 7\<rparr> ''b1ffcd000d1c4fa98c7e7cc0ce491b22'') =
     (\<lparr>ID = ''b1ffcd000d1c4fa98c7e7cc0ce491b22'', Name = ''web'', Protected = True,
       CreatedAt = Some 6, UpdatedAt = Some 6\<rparr>, None) \<and>
   fst (Get None
      \<lparr>apps = [\<lparr>app_id = ''a0eebc99-9c0b-4ef8-bb6d-6bb9bd380a11'', name = ''web'', protected = False,
                 created_at = 1, updated_at = 1, deleted_at = Some 5\<rparr>,
               \<lparr>app_id = ''b1ffcd00-0d1c-4fa9-8c7e-7cc0ce491b22'', name = ''web'', protected = True,
                 created_at = 6, updated_at = 6, deleted_at = None\<rparr>],
        pending = None, issued = [], clock = 7\<rparr> ''a0eebc99-9c0b-4ef8-bb6d-6bb9bd380a11'') =
     (empty_App, Some ErrNotFound)"
  using
    Get_resolves_id_or_name [of
      "\<lparr>apps = [\<lparr>app_id = ''a0eebc99-9c0b-4ef8-bb6d-6bb9bd380a11'', name = ''web'', protected = False,
                 created_at = 1, updated_at = 1, deleted_at = Some 5\<rparr>,
               \<lparr>app_id = ''b1ffcd00-0d1c-4fa9-8c7e-7cc0ce491b22'', name = ''web'', protected = True,
                 created_at = 6, updated_at = 6, deleted_at = None\<rparr>],
        pending = None, issued = [], clock = 7\<rparr>" "''web''"]
    Get_resolves_id_or_name [of
      "\<lparr>apps = [\<lparr>app_id = ''a0eebc99-9c0b-4ef8-bb6d-6bb9bd380a11'', name = ''web'', protected = False,
                 created_at = 1, updated_at = 1, deleted_at = Some 5\<rparr>,
               \<lparr>app_id = ''b1ffcd00-0d1c-4fa9-8c7e-7cc0ce491b22'', name = ''web'', protected = True,
                 created_at = 6, updated_at = 6, deleted_at = None\<rparr>],
        pending = None, issued = [], clock = 7\<rparr>" "''b1ffcd000d1c4fa98c7e7cc0ce491b22''"]
    Get_resolves_id_or_name [of
      "\<lparr>apps = [\<lparr>app_id = ''a0eebc99-9c0b-4ef8-bb6d-6bb9bd380a11'', name = ''web'', protected = False,
                 created_at = 1, updated_at = 1, deleted_at = Some 5\<rparr>,
               \<lparr>app_id = ''b1ffcd00-0d1c-4fa9-8c7e-7cc0ce491b22'', name = ''web'', protected = True,
                 created_at = 6, updated_at = 6, deleted_at = None\<rparr>],
        pending = None, issued = [], clock = 7\<rparr>" "''a0eebc99-9c0b-4ef8-bb6d-6bb9bd380a11''"]
  by (simp add: lookup_app_def resolves_def idPattern_examples uuid_eq_def cleanUUID_def app_of_row_def)

section \<open>\<^verbatim>\<open>AppRepo.Update\<close>\<close>

lemma Begin_ok:
  "Begin None db = (None, db\<lparr>issued := issued db @ [BeginTx], pending := Some (apps db)\<rparr>)"
  by (simp add: Begin_def Let_def)

lemma Begin_fault: "Begin (Some m) db = (Some (DriverError m), db\<lparr>issued := issued db @ [BeginTx]\<rparr>)"
  by (simp add: Begin_def Let_def)

lemma Rollback_simps [simp]:
  "apps (Rollback db) = apps db" "pending (Rollback db) = None"
  "issued (Rollback db) = issued db @ [RollbackTx]"
  by (simp_all add: Rollback_def)

lemma Exec_update_apps: "apps (snd (Exec_update xf db i p)) = apps db"
  by (simp add: Exec_update_def Let_def split: option.splits)

lemma Commit_error_apps: "fst (Commit cf db) \<noteq> None \<Longrightarrow> apps (snd (Commit cf db)) = apps db"
  by (auto simp: Commit_def Let_def split: option.splits)

lemma update_fields_apps: "apps (snd (snd (update_fields xf kvs app db))) = apps db"
proof (induction xf kvs app db rule: update_fields.induct)
  case (1 xf app db)
  show ?case by simp
next
  case (2 xf k v kvs app db)
  show ?case
  proof (cases "k = ''protected''")
    case False
    with 2 show ?thesis by simp
  next
    case k: True
    show ?thesis
    proof (cases v)
      case (Other tn)
      with k show ?thesis by simp
    next
      case (Bool p)
      show ?thesis
      proof (cases "Protected app = p")
        case True
        with 2(2) k Bool show ?thesis by simp
      next
        case False
        obtain e db' where ex: "Exec_update xf db (ID app) p = (e, db')" by (cases "Exec_update xf db (ID app) p")
        then have a: "apps db' = apps db" using Exec_update_apps [of xf db "ID app" p] by simp
        show ?thesis
        proof (cases e)
          case None
          note ih = 2(1) [OF k Bool False ex [unfolded None, symmetric] refl]
          from None ih k Bool False ex a show ?thesis by simp
        next
          case (Some err)
          with k Bool False ex a show ?thesis by simp
        qed
      qed
    qed
  qed
qed

lemma update_fields_rolled_back:
  "fst (update_fields xf kvs app db) = Some e \<Longrightarrow>
     pending (snd (snd (update_fields xf kvs app db))) = None \<and>
     last (issued (snd (snd (update_fields xf kvs app db)))) = RollbackTx"
proof (induction xf kvs app db rule: update_fields.induct)
  case (1 xf app db)
  then show ?case by simp
next
  case (2 xf k v kvs app db)
  show ?case
  proof (cases "k = ''protected''")
    case False
    with 2 show ?thesis by simp
  next
    case k: True
    show ?thesis
    proof (cases v)
      case (Other tn)
      with k show ?thesis by simp
    next
      case (Bool p)
      show ?thesis
      proof (cases "Protected app = p")
        case True
        with "2.IH"(2) "2.prems" k Bool show ?thesis by simp
      next
        case False
        obtain r db' where ex: "Exec_update xf db (ID app) p = (r, db')" by (cases "Exec_update xf db (ID app) p")
        show ?thesis
        proof (cases r)
          case None
          note ih = 2(1) [OF k Bool False ex [unfolded None, symmetric] refl]
          from None ih "2.prems" k Bool False ex show ?thesis by simp
        next
          case (Some err)
          with k Bool False ex show ?thesis by simp
        qed
      qed
    qed
  qed
qed

lemma update_fields_skip:
  "''protected'' \<notin> fst ` set pre \<Longrightarrow>
     update_fields xf (pre @ rest) app db = update_fields xf rest app db"
  by (induction pre) auto

lemma update_fields_other_keys:
  "''protected'' \<notin> fst ` set kvs \<Longrightarrow> update_fields xf kvs app db = (None, app, db)"
  using update_fields_skip [of kvs xf "[]" app db] by simp

lemma map_entry_split:
  assumes "distinct (map fst data)" and "(k, v) \<in> set data"
  obtains pre post where "data = pre @ (k, v) # post"
    and "k \<notin> fst ` set pre" and "k \<notin> fst ` set post"
proof -
  from assms(2) obtain pre post where d: "data = pre @ (k, v) # post"
    by (auto simp: in_set_conv_decomp)
  with assms(1) have "k \<notin> fst ` set pre" "k \<notin> fst ` set post" by auto
  with d show ?thesis by (rule that)
qed

lemma update_fields_protected:
  assumes "distinct (map fst data)" and "(''protected'', v) \<in> set data"
  shows "update_fields xf data app db = update_fields xf [(''protected'', v)] app db"
proof -
  from assms obtain pre post where d: "data = pre @ (''protected'', v) # post"
    and pre: "''protected'' \<notin> fst ` set pre" and post: "''protected'' \<notin> fst ` set post"
    by (rule map_entry_split)
  have "update_fields xf data app db = update_fields xf ((''protected'', v) # post) app db"
    unfolding d using pre by (rule update_fields_skip)
  also have "\<dots> = update_fields xf [(''protected'', v)] app db"
    using update_fields_other_keys [OF post]
    by (cases v) (auto split: prod.splits option.splits)
  finally show ?thesis .
qed

lemma Update_begin_fault:
  "begin_fault f = Some m \<Longrightarrow>
     Update f s data db = ((None, Some (DriverError m)), db\<lparr>issued := issued db @ [BeginTx]\<rparr>)"
  by (simp add: Update_def Begin_fault)

lemma in_tx_select:
  assumes "begin_fault f = None"
  obtains db1 db2 where "Begin (begin_fault f) db = (None, db1)"
    and "selectApp OnTx (query_fault f) db1 s True =
           (fst (selectApp OnTx (query_fault f) db1 s True), db2)"
    and "apps db2 = apps db" and "pending db2 = Some (apps db)"
    and "rows_of OnTx db1 = Some (apps db)"
proof -
  let ?db1 = "db\<lparr>issued := issued db @ [BeginTx], pending := Some (apps db)\<rparr>"
  let ?db2 = "snd (selectApp OnTx (query_fault f) ?db1 s True)"
  have "Begin (begin_fault f) db = (None, ?db1)" using assms by (simp add: Begin_ok)
  moreover have "selectApp OnTx (query_fault f) ?db1 s True =
           (fst (selectApp OnTx (query_fault f) ?db1 s True), ?db2)" by simp
  moreover have "apps ?db2 = apps db" "pending ?db2 = Some (apps db)"
    by (simp_all add: snd_selectApp)
  moreover have "rows_of OnTx ?db1 = Some (apps db)" by (simp add: rows_of_def)
  ultimately show ?thesis by (rule that)
qed

lemma Update_lookup_fails:
  assumes "begin_fault f = None"
    and "query_fault f \<noteq> None \<or> lookup_app s (apps db) = None"
  shows "fst (Update f s data db) =
           (None, Some (case query_fault f of None \<Rightarrow> ErrNotFound | Some m \<Rightarrow> DriverError m)) \<and>
         apps (snd (Update f s data db)) = apps db \<and> pending (snd (Update f s data db)) = None \<and>
         last (issued (snd (Update f s data db))) = RollbackTx"
proof -
  from assms(1) obtain db1 db2 where b: "Begin (begin_fault f) db = (None, db1)"
    and sel: "selectApp OnTx (query_fault f) db1 s True =
           (fst (selectApp OnTx (query_fault f) db1 s True), db2)"
    and db2: "apps db2 = apps db" "pending db2 = Some (apps db)"
    and rows: "rows_of OnTx db1 = Some (apps db)"
    by (rule in_tx_select)
  let ?e = "case query_fault f of None \<Rightarrow> ErrNotFound | Some m \<Rightarrow> DriverError m"
  have "fst (selectApp OnTx (query_fault f) db1 s True) = (empty_App, Some ?e)"
  proof (cases "query_fault f")
    case None
    with assms(2) selectApp_found [OF rows, of s True] show ?thesis by simp
  next
    case (Some m)
    then show ?thesis by (simp add: selectApp_fault)
  qed
  then have "selectApp OnTx (query_fault f) db1 s True = ((empty_App, Some ?e), db2)"
    using sel by simp
  with b have "Update f s data db = ((None, Some ?e), Rollback db2)"
    by (simp add: Update_def)
  with db2 show ?thesis by simp
qed

lemma Update_found:
  assumes "begin_fault f = None" and "query_fault f = None"
    and "lookup_app s (apps db) = Some r"
  obtains db2 where "apps db2 = apps db" and "pending db2 = Some (apps db)"
    and "Update f s data db =
          (case update_fields (exec_fault f) data (app_of_row r) db2 of
             (Some e, app', db3) \<Rightarrow> ((None, Some e), db3)
           | (None, app', db3) \<Rightarrow>
               (case Commit (commit_fault f) db3 of (ce, db4) \<Rightarrow> ((Some app', ce), db4)))"
proof -
  from assms(1) obtain db1 db2 where b: "Begin (begin_fault f) db = (None, db1)"
    and sel: "selectApp OnTx (query_fault f) db1 s True =
           (fst (selectApp OnTx (query_fault f) db1 s True), db2)"
    and db2: "apps db2 = apps db" "pending db2 = Some (apps db)"
    and rows: "rows_of OnTx db1 = Some (apps db)"
    by (rule in_tx_select)
  have "selectApp OnTx (query_fault f) db1 s True = ((app_of_row r, None), db2)"
    using sel selectApp_found [OF rows, of s True] assms(2,3) by simp
  with b have "Update f s data db =
          (case update_fields (exec_fault f) data (app_of_row r) db2 of
             (Some e, app', db3) \<Rightarrow> ((None, Some e), db3)
           | (None, app', db3) \<Rightarrow>
               (case Commit (commit_fault f) db3 of (ce, db4) \<Rightarrow> ((Some app', ce), db4)))"
    by (simp add: Update_def)
  with db2 show ?thesis by (rule that)
qed

lemma Update_error_atomic:
  assumes "snd (fst (Update f s data db)) \<noteq> None"
  shows "apps (snd (Update f s data db)) = apps db"
proof (cases "begin_fault f")
  case (Some m)
  then show ?thesis by (simp add: Update_begin_fault)
next
  case None
  show ?thesis
  proof (cases "query_fault f \<noteq> None \<or> lookup_app s (apps db) = None")
    case True
    with None show ?thesis by (simp add: Update_lookup_fails)
  next
    case False
    then obtain r where "query_fault f = None" "lookup_app s (apps db) = Some r" by auto
    with None obtain db2 where db2: "apps db2 = apps db"
      and u: "Update f s data db =
          (case update_fields (exec_fault f) data (app_of_row r) db2 of
             (Some e, app', db3) \<Rightarrow> ((None, Some e), db3)
           | (None, app', db3) \<Rightarrow>
               (case Commit (commit_fault f) db3 of (ce, db4) \<Rightarrow> ((Some app', ce), db4)))"
      by (rule Update_found [where data = data])
    obtain e app' db3 where uf: "update_fields (exec_fault f) data (app_of_row r) db2 = (e, app', db3)"
      by (cases "update_fields (exec_fault f) data (app_of_row r) db2")
    then have db3: "apps db3 = apps db"
      using update_fields_apps [of "exec_fault f" data "app_of_row r" db2] db2 by simp
    show ?thesis
    proof (cases e)
      case (Some err)
      with u uf db3 show ?thesis by simp
    next
      case None
      with u uf have "Update f s data db = ((Some app', fst (Commit (commit_fault f) db3)), snd (Commit (commit_fault f) db3))"
        by (simp add: case_prod_unfold)
      with assms db3 show ?thesis by (simp add: Commit_error_apps)
    qed
  qed
qed

text \<open>
  C9. The payload is a map, so its keys are distinct. With the transaction begun:
  if the app is found and the value under \<^verbatim>\<open>protected\<close> is not a bool, \<^verbatim>\<open>Update\<close>
  returns nil and the error naming the value's type; if the lookup fails (no row, or the
  store fails), it returns nil and \<^verbatim>\<open>ErrNotFound\<close> or the store's error; if the write
  of the field fails, it returns nil and the store's error. In each case the last
  statement issued is the rollback, no transaction stays open and the committed rows are
  those before the call. Whatever error \<^verbatim>\<open>Update\<close> returns, the committed rows are
  unchanged.
\<close>

theorem Update_failure_rolls_back:
  assumes "distinct (map fst data)"
  shows
   "(begin_fault f = None \<and> query_fault f = None \<and> lookup_app s (apps db) \<noteq> None \<and>
       (''protected'', Other tn) \<in> set data \<longrightarrow>
       fst (Update f s data db) =
         (None, Some (ErrorsNew (''controller: expected bool, got '' @ tn))) \<and>
       apps (snd (Update f s data db)) = apps db \<and>
       pending (snd (Update f s data db)) = None \<and>
       last (issued (snd (Update f s data db))) = RollbackTx) \<and>
    (begin_fault f = None \<and> (query_fault f \<noteq> None \<or> lookup_app s (apps db) = None) \<longrightarrow>
       fst (Update f s data db) =
         (None, Some (case query_fault f of None \<Rightarrow> ErrNotFound | Some m \<Rightarrow> DriverError m)) \<and>
       apps (snd (Update f s data db)) = apps db \<and>
       pending (snd (Update f s data db)) = None \<and>
       last (issued (snd (Update f s data db))) = RollbackTx) \<and>
    (begin_fault f = None \<and> query_fault f = None \<and> lookup_app s (apps db) = Some r \<and>
       (''protected'', Bool p) \<in> set data \<and> p \<noteq> protected r \<and> exec_fault f = Some m \<longrightarrow>
       fst (Update f s data db) = (None, Some (DriverError m)) \<and>
       apps (snd (Update f s data db)) = apps db \<and>
       pending (snd (Update f s data db)) = None \<and>
       last (issued (snd (Update f s data db))) = RollbackTx) \<and>
    (snd (fst (Update f s data db)) \<noteq> None \<longrightarrow> apps (snd (Update f s data db)) = apps db)"
proof (intro conjI impI)
  assume a: "begin_fault f = None \<and> query_fault f = None \<and> lookup_app s (apps db) \<noteq> None \<and>
       (''protected'', Other tn) \<in> set data"
  then obtain r where r: "lookup_app s (apps db) = Some r" by auto
  from a r obtain db2 where db2: "apps db2 = apps db"
    and u: "Update f s data db =
          (case update_fields (exec_fault f) data (app_of_row r) db2 of
             (Some e, app', db3) \<Rightarrow> ((None, Some e), db3)
           | (None, app', db3) \<Rightarrow>
               (case Commit (commit_fault f) db3 of (ce, db4) \<Rightarrow> ((Some app', ce), db4)))"
    by (auto intro: Update_found [where data = data])
  have "update_fields (exec_fault f) data (app_of_row r) db2 =
          (Some (ErrorsNew (''controller: expected bool, got '' @ tn)), app_of_row r, Rollback db2)"
    using update_fields_protected [OF assms, of "Other tn"] a by simp
  with u have "Update f s data db =
      ((None, Some (ErrorsNew (''controller: expected bool, got '' @ tn))), Rollback db2)"
    by simp
  with db2 show "fst (Update f s data db) =
         (None, Some (ErrorsNew (''controller: expected bool, got '' @ tn)))"
    and "apps (snd (Update f s data db)) = apps db"
    and "pending (snd (Update f s data db)) = None"
    and "last (issued (snd (Update f s data db))) = RollbackTx"
    by simp_all
next
  assume a: "begin_fault f = None \<and> (query_fault f \<noteq> None \<or> lookup_app s (apps db) = None)"
  then have "begin_fault f = None" "query_fault f \<noteq> None \<or> lookup_app s (apps db) = None"
    by simp_all
  note l = Update_lookup_fails [OF this, of data]
  from l show "fst (Update f s data db) =
         (None, Some (case query_fault f of None \<Rightarrow> ErrNotFound | Some m \<Rightarrow> DriverError m))"
    and "apps (snd (Update f s data db)) = apps db"
    and "pending (snd (Update f s data db)) = None"
    and "last (issued (snd (Update f s data db))) = RollbackTx"
    by simp_all
next
  assume a: "begin_fault f = None \<and> query_fault f = None \<and> lookup_app s (apps db) = Some r \<and>
       (''protected'', Bool p) \<in> set data \<and> p \<noteq> protected r \<and> exec_fault f = Some m"
  then obtain db2 where db2: "apps db2 = apps db"
    and u: "Update f s data db =
          (case update_fields (exec_fault f) data (app_of_row r) db2 of
             (Some e, app', db3) \<Rightarrow> ((None, Some e), db3)
           | (None, app', db3) \<Rightarrow>
               (case Commit (commit_fault f) db3 of (ce, db4) \<Rightarrow> ((Some app', ce), db4)))"
    by (auto intro: Update_found [where data = data])
  have "update_fields (exec_fault f) data (app_of_row r) db2 =
          (Some (DriverError m), app_of_row r,
           Rollback (db2\<lparr>issued := issued db2 @ [UpdateProtected (cleanUUID (app_id r)) p]\<rparr>))"
    using update_fields_protected [OF assms, of "Bool p"] a
    by (simp add: app_of_row_def Exec_update_def Let_def)
  with u have "Update f s data db =
      ((None, Some (DriverError m)),
       Rollback (db2\<lparr>issued := issued db2 @ [UpdateProtected (cleanUUID (app_id r)) p]\<rparr>))"
    by simp
  with db2 show "fst (Update f s data db) = (None, Some (DriverError m))"
    and "apps (snd (Update f s data db)) = apps db"
    and "pending (snd (Update f s data db)) = None"
    and "last (issued (snd (Update f s data db))) = RollbackTx"
    by simp_all
next
  assume "snd (fst (Update f s data db)) \<noteq> None"
  then show "apps (snd (Update f s data db)) = apps db" by (rule Update_error_atomic)
qed

theorem Update_failure_rolls_back_witness:
  "fst (Update \<lparr>begin_fault = None, query_fault = None, exec_fault = None, commit_fault = None\<rparr>
          ''web'' [(''name'', Other ''string''), (''protected'', Other ''string'')]
          \<lparr>apps = [\<lparr>app_id = ''b1ffcd00-0d1c-4fa9-8c7e-7cc0ce491b22'', name = ''web'',
                     protected = False, created_at = 6, updated_at = 6, deleted_at = None\<rparr>],
            pending = None, issued = [], clock = 7\<rparr>) =
     (None, Some (ErrorsNew ''controller: expected bool, got string'')) \<and>
   apps (snd (Update \<lparr>begin_fault = None, query_fault = None, exec_fault = None, commit_fault = None\<rparr>
          ''web'' [(''name'', Other ''string''), (''protected'', Other ''string'')]
          \<lparr>apps = [\<lparr>app_id = ''b1ffcd00-0d1c-4fa9-8c7e-7cc0ce491b22'', name = ''web'',
                     protected = False, created_at = 6, updated_at = 6, deleted_at = None\<rparr>],
            pending = None, issued = [], clock = 7\<rparr>)) =
     [\<lparr>app_id = ''b1ffcd00-0d1c-4fa9-8c7e-7cc0ce491b22'', name = ''web'',
       protected = False, created_at = 6, updated_at = 6, deleted_at = None\<rparr>] \<and>
   fst (Update \<lparr>begin_fault = None, query_fault = None, exec_fault = None, commit_fault = None\<rparr>
          ''nope'' [(''protected'', Bool True)]
          \<lparr>apps = [\<lparr>app_id = ''b1ffcd00-0d1c-4fa9-8c7e-7cc0ce491b22'', name = ''web'',
                     protected = False, created_at = 6, updated_at = 6, deleted_at = None\<rparr>],
            pending = None, issued = [], clock = 7\<rparr>) =
     (None, Some ErrNotFound) \<and>
   fst (Update \<lparr>begin_fault = None, query_fault = None, exec_fault = Some ''connection lost'',
                commit_fault = None\<rparr>
          ''web'' [(''protected'', Bool True)]
          \<lparr>apps = [\<lparr>app_id = ''b1ffcd00-0d1c-4fa9-8c7e-7cc0ce491b22'', name = ''web'',
                     protected = False, created_at = 6, updated_at = 6, deleted_at = None\<rparr>],
            pending = None, issued = [], clock = 7\<rparr>) =
     (None, Some (DriverError ''connection lost'')) \<and>
   apps (snd (Update \<lparr>begin_fault = None, query_fault = None, exec_fault = Some ''connection lost'',
                commit_fault = None\<rparr>
          ''web'' [(''protected'', Bool True)]
          \<lparr>apps = [\<lparr>app_id = ''b1ffcd00-0d1c-4fa9-8c7e-7cc0ce491b22'', name = ''web'',
                     protected = False, created_at = 6, updated_at = 6, deleted_at = None\<rparr>],
            pending = None, issued = [], clock = 7\<rparr>)) =
     [\<lparr>app_id = ''b1ffcd00-0d1c-4fa9-8c7e-7cc0ce491b22'', name = ''web'',
       protected = False, created_at = 6, updated_at = 6, deleted_at = None\<rparr>]"
proof -
  let ?row = "\<lparr>app_id = ''b1ffcd00-0d1c-4fa9-8c7e-7cc0ce491b22'', name = ''web'',
                protected = False, created_at = 6, updated_at = 6, deleted_at = None\<rparr>"
  let ?db = "\<lparr>apps = [?row], pending = None, issued = [], clock = 7\<rparr>"
  let ?ok = "\<lparr>begin_fault = None, query_fault = None, exec_fault = None, commit_fault = None\<rparr>"
  let ?lost = "\<lparr>begin_fault = None, query_fault = None, exec_fault = Some ''connection lost'',
                 commit_fault = None\<rparr>"
  have web: "lookup_app ''web'' (apps ?db) = Some ?row"
    by (simp add: lookup_app_def resolves_def idPattern_examples)
  have nope: "lookup_app ''nope'' (apps ?db) = None"
    by (simp add: lookup_app_def resolves_def idPattern_examples)
  have d1: "distinct (map fst [(''name'', Other ''string''), (''protected'', Other ''string'')])"
    by simp
  have d2: "distinct (map fst [(''protected'', Bool True)])" by simp
  from Update_failure_rolls_back [OF d1, of ?ok "''web''" ?db "''string''"] web
  have t1: "fst (Update ?ok ''web'' [(''name'', Other ''string''), (''protected'', Other ''string'')] ?db) =
              (None, Some (ErrorsNew ''controller: expected bool, got string''))"
    and t2: "apps (snd (Update ?ok ''web'' [(''name'', Other ''string''), (''protected'', Other ''string'')] ?db)) = [?row]"
    by simp_all
  from Update_failure_rolls_back [OF d2, of ?ok "''nope''" ?db] nope
  have t3: "fst (Update ?ok ''nope'' [(''protected'', Bool True)] ?db) = (None, Some ErrNotFound)"
    by simp
  from Update_failure_rolls_back [OF d2, of ?lost "''web''" ?db _ ?row True "''connection lost''"] web
  have t4: "fst (Update ?lost ''web'' [(''protected'', Bool True)] ?db) =
              (None, Some (DriverError ''connection lost''))"
    and t5: "apps (snd (Update ?lost ''web'' [(''protected'', Bool True)] ?db)) = [?row]"
    by simp_all
  from t1 t2 t3 t4 t5 show ?thesis by simp
qed

section \<open>The client's reading of status codes\<close>

lemma get_status:
  assumes "http_Get env (url @ path) = Inr res"
  shows "get env url path =
     (if StatusCode res = 200 then Decode env (Body res)
      else if StatusCode res = 404 then Inl ErrNotFound_client
      else Inl (UrlError ''GET'' (url @ path) (UnexpectedStatus (StatusCode res))))"
  using assms by (simp add: get_def)

lemma send_status:
  assumes "Marshal env inp = Inr data"
    and "NewRequest env method (url @ path) data = Inr req"
    and "Do env (req\<lparr>ContentType := ''application/json''\<rparr>) = Inr res"
  shows "send env url method path inp out =
     (if StatusCode res = 200 then
        (if out then (case Decode env (Body res) of Inl e \<Rightarrow> Inl e | Inr v \<Rightarrow> Inr (Some v))
         else Inr None)
      else Inl (UrlError (Method req) (URL req) (UnexpectedStatus (StatusCode res))))"
  using assms by (simp add: send_def)

text \<open>
  C7. The claim holds of \<^verbatim>\<open>get\<close> (\<open>get_status\<close>) and fails of \<^verbatim>\<open>send\<close>, which
  \<^verbatim>\<open>put\<close> and \<^verbatim>\<open>post\<close> go through: \<^verbatim>\<open>send\<close> has no branch for 404
  (\<open>send_status\<close>). Against a server that answers 404, a PUT and a POST return the generic
  error with the status embedded, where the same answer to a GET is \<^verbatim>\<open>ErrNotFound\<close>.
\<close>

theorem send_404_is_not_ErrNotFound:
  "put (answering 404) ''http://flynn-controller'' ''/apps/a1/release'' ''{}'' False =
     Inl (UrlError ''PUT'' ''http://flynn-controller/apps/a1/release'' (UnexpectedStatus 404)) \<and>
   post (answering 404) ''http://flynn-controller'' ''/apps/a1/routes'' ''{}'' True =
     Inl (UrlError ''POST'' ''http://flynn-controller/apps/a1/routes'' (UnexpectedStatus 404)) \<and>
   get (answering 404) ''http://flynn-controller'' ''/apps/a1/release'' = Inl ErrNotFound_client"
  by (simp add: put_def post_def send_def get_def http_Get_def answering_def)

section \<open>Job listing\<close>

lemma set_jobs_of_hosts:
  "set (jobs_of_hosts app hs) =
     {public_job h j | h hst j. (h, hst) \<in> set hs \<and> j \<in> set (Jobs hst) \<and> tags_app app j}"
proof (induction hs)
  case Nil
  show ?case by simp
next
  case (Cons p hs)
  obtain h hst where p: "p = (h, hst)" by (cases p)
  have "set (jobs_of_hosts app (p # hs)) =
          public_job h ` {j \<in> set (Jobs hst). tags_app app j} \<union> set (jobs_of_hosts app hs)"
    by (simp add: p)
  also have "\<dots> = {public_job h' j | h' hst' j.
                     (h', hst') \<in> set (p # hs) \<and> j \<in> set (Jobs hst') \<and> tags_app app j}"
    unfolding Cons.IH p by auto
  finally show ?case .
qed

lemma length_jobs_of_hosts:
  "length (jobs_of_hosts app hs) =
     (\<Sum>(h, hst)\<leftarrow>hs. length (filter (tags_app app) (Jobs hst)))"
  by (induction hs) auto

text \<open>
  C5. A job is in the listing of app \<open>X\<close> exactly when it is the projection of a job of
  some host whose attributes tag \<open>X\<close>: a job with no app attribute, or tagged to another
  app, contributes nothing, and the listing has one entry per tagged job. The
  projection has the ID \<^verbatim>\<open>hostID + "-" + jobID\<close>, the type and the release ID of the
  attributes (empty when absent) and the command of the container config (none without
  a config). The witness is the cluster of \<^verbatim>\<open>TestJobList\<close>.
\<close>

theorem jobList_scoped_to_app:
  "(J \<in> set (jobList c X) \<longleftrightarrow>
      (\<exists>(h, hst)\<in>set (ListHosts c). \<exists>j\<in>set (Jobs hst).
          Attributes j ''flynn-controller.app'' = Some X \<and> J = public_job h j)) \<and>
   length (jobList c X) =
      (\<Sum>(h, hst)\<leftarrow>ListHosts c.
          length (filter (\<lambda>j. Attributes j ''flynn-controller.app'' = Some X) (Jobs hst))) \<and>
   Job_ID (public_job h j) = h @ ''-'' @ host_Job_ID j \<and>
   Job_Type (public_job h j) =
      (case Attributes j ''flynn-controller.type'' of None \<Rightarrow> [] | Some t \<Rightarrow> t) \<and>
   Job_ReleaseID (public_job h j) =
      (case Attributes j ''flynn-controller.release'' of None \<Rightarrow> [] | Some r \<Rightarrow> r) \<and>
   Job_Cmd (public_job h j) = (case Config j of None \<Rightarrow> [] | Some cfg \<Rightarrow> Cmd cfg)"
proof -
  have "J \<in> set (jobList c X) \<longleftrightarrow>
      (\<exists>(h, hst)\<in>set (ListHosts c). \<exists>j\<in>set (Jobs hst).
          Attributes j ''flynn-controller.app'' = Some X \<and> J = public_job h j)"
    unfolding jobList_def set_jobs_of_hosts tags_app_def by auto
  moreover have "length (jobList c X) =
      (\<Sum>(h, hst)\<leftarrow>ListHosts c.
          length (filter (\<lambda>j. Attributes j ''flynn-controller.app'' = Some X) (Jobs hst)))"
    unfolding jobList_def length_jobs_of_hosts tags_app_def ..
  ultimately show ?thesis
    by (simp add: public_job_def index_or_empty_def)
qed

theorem jobList_scoped_to_app_witness:
  "jobList
     \<lparr>hosts = [(''host0'', \<lparr>host_ID = ''host0'', Jobs =
        [\<lparr>host_Job_ID = ''job0'',
          Attributes = [''flynn-controller.app'' \<mapsto> ''a1'', ''flynn-controller.release'' \<mapsto> ''release0'',
                        ''flynn-controller.type'' \<mapsto> ''web''],
          Config = None\<rparr>,
         \<lparr>host_Job_ID = ''job1'', Attributes = [''flynn-controller.app'' \<mapsto> ''a1''],
          Config = Some \<lparr>Cmd = [''bash''], Env = [], AttachStdout = False, AttachStderr = False,
                         AttachStdin = False, StdinOnce = False, OpenStdin = False\<rparr>\<rparr>,
         \<lparr>host_Job_ID = ''job2'', Attributes = [''flynn-controller.app'' \<mapsto> ''otherApp''],
          Config = None\<rparr>,
         \<lparr>host_Job_ID = ''job3'', Attributes = Map.empty, Config = None\<rparr>]\<rparr>)],
      hostClients = Map.empty\<rparr> ''a1'' =
     [\<lparr>Job_ID = ''host0-job0'', Job_Type = ''web'', Job_ReleaseID = ''release0'', Job_Cmd = []\<rparr>,
      \<lparr>Job_ID = ''host0-job1'', Job_Type = [], Job_ReleaseID = [], Job_Cmd = [''bash'']\<rparr>] \<and>
   \<lparr>Job_ID = ''host0-job1'', Job_Type = [], Job_ReleaseID = [], Job_Cmd = [''bash'']\<rparr> \<in> set (jobList
     \<lparr>hosts = [(''host0'', \<lparr>host_ID = ''host0'', Jobs =
        [\<lparr>host_Job_ID = ''job0'',
          Attributes = [''flynn-controller.app'' \<mapsto> ''a1'', ''flynn-controller.release'' \<mapsto> ''release0'',
                        ''flynn-controller.type'' \<mapsto> ''web''],
          Config = None\<rparr>,
         \<lparr>host_Job_ID = ''job1'', Attributes = [''flynn-controller.app'' \<mapsto> ''a1''],
          Config = Some \<lparr>Cmd = [''bash''], Env = [], AttachStdout = False, AttachStderr = False,
                         AttachStdin = False, StdinOnce = False, OpenStdin = False\<rparr>\<rparr>,
         \<lparr>host_Job_ID = ''job2'', Attributes = [''flynn-controller.app'' \<mapsto> ''otherApp''],
          Config = None\<rparr>,
         \<lparr>host_Job_ID = ''job3'', Attributes = Map.empty, Config = None\<rparr>]\<rparr>)],
      hostClients = Map.empty\<rparr> ''a1'') \<and>
   \<lparr>Job_ID = ''host0-job3'', Job_Type = [], Job_ReleaseID = [], Job_Cmd = []\<rparr> \<notin> set (jobList
     \<lparr>hosts = [(''host0'', \<lparr>host_ID = ''host0'', Jobs =
        [\<lparr>host_Job_ID = ''job0'',
          Attributes = [''flynn-controller.app'' \<mapsto> ''a1'', ''flynn-controller.release'' \<mapsto> ''release0'',
                        ''flynn-controller.type'' \<mapsto> ''web''],
          Config = None\<rparr>,
         \<lparr>host_Job_ID = ''job1'', Attributes = [''flynn-controller.app'' \<mapsto> ''a1''],
          Config = Some \<lparr>Cmd = [''bash''], Env = [], AttachStdout = False, AttachStderr = False,
                         AttachStdin = False, StdinOnce = False, OpenStdin = False\<rparr>\<rparr>,
         \<lparr>host_Job_ID = ''job2'', Attributes = [''flynn-controller.app'' \<mapsto> ''otherApp''],
          Config = None\<rparr>,
         \<lparr>host_Job_ID = ''job3'', Attributes = Map.empty, Config = None\<rparr>]\<rparr>)],
      hostClients = Map.empty\<rparr> ''a1'')"
proof -
  let ?c = "\<lparr>hosts = [(''host0'', \<lparr>host_ID = ''host0'', Jobs =
        [\<lparr>host_Job_ID = ''job0'',
          Attributes = [''flynn-controller.app'' \<mapsto> ''a1'', ''flynn-controller.release'' \<mapsto> ''release0'',
                        ''flynn-controller.type'' \<mapsto> ''web''],
          Config = None\<rparr>,
         \<lparr>host_Job_ID = ''job1'', Attributes = [''flynn-controller.app'' \<mapsto> ''a1''],
          Config = Some \<lparr>Cmd = [''bash''], Env = [], AttachStdout = False, AttachStderr = False,
                         AttachStdin = False, StdinOnce = False, OpenStdin = False\<rparr>\<rparr>,
         \<lparr>host_Job_ID = ''job2'', Attributes = [''flynn-controller.app'' \<mapsto> ''otherApp''],
          Config = None\<rparr>,
         \<lparr>host_Job_ID = ''job3'', Attributes = Map.empty, Config = None\<rparr>]\<rparr>)],
      hostClients = Map.empty\<rparr>"
  have run: "jobList ?c ''a1'' =
     [\<lparr>Job_ID = ''host0-job0'', Job_Type = ''web'', Job_ReleaseID = ''release0'', Job_Cmd = []\<rparr>,
      \<lparr>Job_ID = ''host0-job1'', Job_Type = [], Job_ReleaseID = [], Job_Cmd = [''bash'']\<rparr>]"
    by (simp add: jobList_def ListHosts_def tags_app_def public_job_def index_or_empty_def)
  have inn: "\<lparr>Job_ID = ''host0-job1'', Job_Type = [], Job_ReleaseID = [], Job_Cmd = [''bash'']\<rparr>
               \<in> set (jobList ?c ''a1'')"
    using jobList_scoped_to_app
      [of "\<lparr>Job_ID = ''host0-job1'', Job_Type = [], Job_ReleaseID = [], Job_Cmd = [''bash'']\<rparr>" ?c "''a1''"]
    by (simp add: ListHosts_def public_job_def index_or_empty_def)
  have out: "\<lparr>Job_ID = ''host0-job3'', Job_Type = [], Job_ReleaseID = [], Job_Cmd = []\<rparr>
               \<notin> set (jobList ?c ''a1'')"
    using jobList_scoped_to_app
      [of "\<lparr>Job_ID = ''host0-job3'', Job_Type = [], Job_ReleaseID = [], Job_Cmd = []\<rparr>" ?c "''a1''"]
    by (simp add: ListHosts_def public_job_def index_or_empty_def)
  from run inn out show ?thesis by blast
qed

section \<open>Kill\<close>

lemma parseJobID_composite:
  assumes "CHR ''-'' \<notin> set h"
  shows "parseJobID (h @ ''-'' @ j) = Some (h, j)"
proof -
  have "takeWhile (\<lambda>c. c \<noteq> CHR ''-'') (h @ CHR ''-'' # j) = h"
    using assms by (induction h) auto
  moreover have "dropWhile (\<lambda>c. c \<noteq> CHR ''-'') (h @ CHR ''-'' # j) = CHR ''-'' # j"
    using assms by (induction h) auto
  ultimately show ?thesis by (simp add: parseJobID_def)
qed

lemma parseJobID_first:
  "parseJobID s = Some (h, j) \<longleftrightarrow> s = h @ ''-'' @ j \<and> CHR ''-'' \<notin> set h"
proof
  assume "parseJobID s = Some (h, j)"
  then have m: "CHR ''-'' \<in> set s" and h: "h = takeWhile (\<lambda>c. c \<noteq> CHR ''-'') s"
    and j: "j = tl (dropWhile (\<lambda>c. c \<noteq> CHR ''-'') s)"
    by (auto simp: parseJobID_def split: if_splits)
  from m have "dropWhile (\<lambda>c. c \<noteq> CHR ''-'') s \<noteq> []" by (auto simp: dropWhile_eq_Nil_conv)
  then obtain x xs where d: "dropWhile (\<lambda>c. c \<noteq> CHR ''-'') s = x # xs" by (cases "dropWhile (\<lambda>c. c \<noteq> CHR ''-'') s") auto
  then have "x = CHR ''-''" using hd_dropWhile [of "\<lambda>c. c \<noteq> CHR ''-''" s] by auto
  with d j have "dropWhile (\<lambda>c. c \<noteq> CHR ''-'') s = CHR ''-'' # j" by simp
  with h have "s = h @ CHR ''-'' # j" using takeWhile_dropWhile_id [of "\<lambda>c. c \<noteq> CHR ''-''" s] by simp
  moreover have "CHR ''-'' \<notin> set h" unfolding h by (auto dest: set_takeWhileD)
  ultimately show "s = h @ ''-'' @ j \<and> CHR ''-'' \<notin> set h" by simp
next
  assume "s = h @ ''-'' @ j \<and> CHR ''-'' \<notin> set h"
  then show "parseJobID s = Some (h, j)" using parseJobID_composite by simp
qed

lemma set_hyphen_splits: "set (hyphen_splits s) = {(h, j). s = h @ ''-'' @ j}"
proof (induction s)
  case Nil
  show ?case by simp
next
  case (Cons x xs)
  show ?case
  proof (rule set_eqI)
    fix p :: "string \<times> string"
    obtain h j where p: "p = (h, j)" by (cases p)
    show "p \<in> set (hyphen_splits (x # xs)) \<longleftrightarrow> p \<in> {(h, j). x # xs = h @ ''-'' @ j}"
    proof (cases h)
      case Nil
      with p Cons.IH show ?thesis by auto
    next
      case (Cons y ys)
      with p Cons.IH show ?thesis by auto
    qed
  qed
qed

lemma find_Some_member: "find P xs = Some x \<Longrightarrow> x \<in> set xs \<and> P x"
  by (induction xs) (auto split: if_splits)

lemma parseKnownHost_Some:
  "parseKnownHost c s = Some (h, j) \<Longrightarrow> s = h @ ''-'' @ j \<and> hostClients c h \<noteq> None"
proof -
  assume "parseKnownHost c s = Some (h, j)"
  then have "(h, j) \<in> set (hyphen_splits s)" and "hostClients c h \<noteq> None"
    using find_Some_member [of "\<lambda>(h, j). hostClients c h \<noteq> None" "hyphen_splits s" "(h, j)"]
    by (simp_all add: parseKnownHost_def)
  then show ?thesis by (simp add: set_hyphen_splits)
qed




text \<open>
  Where a host ID holds a hyphen the two decompositions part: for the known host
  \<^verbatim>\<open>a-b\<close> and its job \<^verbatim>\<open>c\<close>, the split at the first hyphen asks for a host
  \<^verbatim>\<open>a\<close> and answers NotFound, the split at a known host stops the job.
\<close>

lemma kill_readings_differ_on_hyphenated_host:
  "killJob (setHostClient \<lparr>hosts = [], hostClients = Map.empty\<rparr> ''a-b'' newFakeHostClient)
           (''a-b'' @ ''-'' @ ''c'') =
     (Some ErrNotFound, setHostClient \<lparr>hosts = [], hostClients = Map.empty\<rparr> ''a-b'' newFakeHostClient) \<and>
   fst (killJobKnownHost (setHostClient \<lparr>hosts = [], hostClients = Map.empty\<rparr> ''a-b'' newFakeHostClient)
           (''a-b'' @ ''-'' @ ''c'')) = None"
  by (simp add: killJob_def killJobKnownHost_def killJobBy_def parseJobID_def parseKnownHost_def
      DialHost_def StopJob_def setHostClient_def)



end
